theory Spec2Isabelle
  imports Main "HOL-Library.Sublist" "HOL-Library.List_Lexorder" "HOL-Library.Char_ord"
    "HOL-Library.AList"
begin

section \<open>Errors\<close>

text \<open>
  Every exception of \<^verbatim>\<open>plotly/io/_json.py\<close> is a value. The module raises
  \<^verbatim>\<open>ValueError\<close> with five different messages; each message has a constructor of
  its own, so that a theorem can tell them apart:
  \<^item> \<open>UnsupportedDefault v\<close>: "Supported JSON engines include ... Received v" (the setter);
  \<^item> \<open>OrjsonMissing\<close>: "The orjson engine requires the orjson package";
  \<^item> \<open>InvalidEngine e\<close>: "Invalid json engine: e";
  \<^item> \<open>StrictEncodingFailed\<close>: "Encoding into strict JSON failed. Did you set the
    separators valid JSON separators?";
  \<^item> \<open>InvalidInput\<close>: "from_json_plotly requires a string or bytes argument ...".
  The other constructors are exceptions raised by Python itself or by a backend and
  propagated unchanged, but for \<open>OutsideModel\<close>, which is no exception: it marks a run
  that leaves what is modelled here (a code point above U+00FF read from JSON text or
  from UTF-8 bytes, or a scanner that used up its fuel).
\<close>

datatype py_error =
    UnsupportedDefault string
  | OrjsonMissing
  | InvalidEngine string
  | StrictEncodingFailed
  | InvalidInput
  | JSONDecodeError
  | TypeError
  | AttributeError
  | UnicodeDecodeError
  | KeyError string
  | OutsideModel

section \<open>JsonConfig\<close>

text \<open>
  \<^verbatim>\<open>class JsonConfig\<close>: one field, \<^verbatim>\<open>_default_engine\<close>. Whether the orjson
  package can be imported is a fact of the interpreter at the time of a call
  (\<^verbatim>\<open>get_module("orjson")\<close> returns the module or None), so every operation that asks
  takes it as the argument \<open>orjson\<close>.
\<close>

record JsonConfig =
  default_engine :: string

definition valid_engines :: "string list" where
  "valid_engines = [''legacy'', ''json'', ''orjson'', ''auto'']"

definition init_config :: JsonConfig where
  "init_config = \<lparr>default_engine = ''auto''\<rparr>"

definition validate_orjson :: "bool \<Rightarrow> py_error + unit" where
  "validate_orjson orjson = (if \<not> orjson then Inl OrjsonMissing else Inr ())"

text \<open>
  The setter of \<^verbatim>\<open>default_engine\<close>. It returns the exception, if one is raised, and
  the object's state after the call.
\<close>

definition set_default_engine ::
  "bool \<Rightarrow> string \<Rightarrow> JsonConfig \<Rightarrow> py_error option \<times> JsonConfig" where
  "set_default_engine orjson val cfg =
     (if val \<notin> set valid_engines then (Some (UnsupportedDefault val), cfg)
      else if val = ''orjson'' then
        (case validate_orjson orjson of
           Inl e \<Rightarrow> (Some e, cfg)
         | Inr _ \<Rightarrow> (None, cfg\<lparr>default_engine := val\<rparr>))
      else (None, cfg\<lparr>default_engine := val\<rparr>))"

text \<open>
  The states a program can reach: the module creates \<^verbatim>\<open>config = JsonConfig()\<close> and
  afterwards only the setter changes it (a setter call that raises leaves the state it
  returns in place).
\<close>

inductive reachable :: "JsonConfig \<Rightarrow> bool" where
  reach_init: "reachable init_config"
| reach_set: "reachable cfg \<Longrightarrow> reachable (snd (set_default_engine orjson val cfg))"

section \<open>Engine selection\<close>

text \<open>
  The first lines of \<^verbatim>\<open>_to_json_plotly\<close> and, after the check of the argument, of
  \<^verbatim>\<open>from_json_plotly\<close>: the engine argument (None when the caller gives none), the
  current configuration, and whether \<^verbatim>\<open>get_module("orjson", should_load=True)\<close> gave the
  module at this call.
\<close>

definition determine_engine ::
  "bool \<Rightarrow> JsonConfig \<Rightarrow> string option \<Rightarrow> py_error + string" where
  "determine_engine orjson cfg engine =
     (let engine = (case engine of None \<Rightarrow> default_engine cfg | Some e \<Rightarrow> e) in
      if engine = ''auto'' then (if orjson then Inr ''orjson'' else Inr ''json'')
      else if engine \<notin> set [''orjson'', ''json'', ''legacy''] then Inl (InvalidEngine engine)
      else Inr engine)"

section \<open>Python values\<close>

text \<open>
  A Python float is one of the three non-finite values or a finite double. Arithmetic on
  floats is never done by this module, only printing and reading, so a finite double is
  named by the text \<^verbatim>\<open>float.__repr__\<close> prints for it: two finite doubles are equal
  when their names are. Reading a number literal is the builtin \<^verbatim>\<open>float\<close>, an
  argument of the scanner below.
\<close>

datatype pyfloat = Finite string | NaN | PosInf | NegInf

text \<open>
  The objects \<^verbatim>\<open>clean_to_json_compatible\<close> tells apart. A \<^verbatim>\<open>str\<close> is a list of
  code points below 256; the keys of a \<^verbatim>\<open>dict\<close> are \<^verbatim>\<open>str\<close> (as in a figure's
  dict) and distinct, in insertion order. An object of a library carries what the
  library's methods return for it:
  \<^item> \<open>PPlotly v\<close>: an object with \<^verbatim>\<open>to_plotly_json()\<close>, which returns \<open>v\<close>;
  \<^item> \<open>PMasked\<close>: \<^verbatim>\<open>numpy.ma.core.masked\<close>;
  \<^item> \<open>PNdArray k c lst ds\<close>: a \<^verbatim>\<open>numpy.ndarray\<close> with \<^verbatim>\<open>dtype.kind == k\<close>,
    \<^verbatim>\<open>numpy.ascontiguousarray(obj)\<close> returning \<open>c\<close> (an array of at least one
    dimension with the elements of \<open>obj\<close>, not \<open>obj\<close> itself in general),
    \<^verbatim>\<open>tolist()\<close> returning \<open>lst\<close> and \<^verbatim>\<open>numpy.datetime_as_string(obj).tolist()\<close>
    returning \<open>ds\<close>;
  \<^item> \<open>PDatetime64 s lst\<close>: a \<^verbatim>\<open>numpy.datetime64\<close> with \<^verbatim>\<open>str(obj) == s\<close> and
    \<^verbatim>\<open>tolist()\<close> returning \<open>lst\<close>;
  \<^item> \<open>PNaT\<close>: \<^verbatim>\<open>pandas.NaT\<close>;
  \<^item> \<open>PSeries k vals dts lst\<close>, \<open>PDatetimeIndex k vals dts lst\<close>: a
    \<^verbatim>\<open>pandas.Series\<close> or \<^verbatim>\<open>pandas.DatetimeIndex\<close> with \<^verbatim>\<open>dtype.kind == k\<close>,
    \<^verbatim>\<open>numpy.ascontiguousarray(obj.values)\<close> returning \<open>vals\<close>, the list of its
    elements as Python datetimes
    (\<^verbatim>\<open>obj.dt.to_pydatetime().tolist()\<close>, \<^verbatim>\<open>obj.to_pydatetime().tolist()\<close>) being
    \<open>dts\<close>, and \<^verbatim>\<open>tolist()\<close> returning \<open>lst\<close>;
  \<^item> \<open>PTimestamp s dt\<close>: a \<^verbatim>\<open>pandas.Timestamp\<close> with \<^verbatim>\<open>isoformat()\<close> returning
    \<open>s\<close> and \<^verbatim>\<open>to_pydatetime()\<close> returning \<open>dt\<close>;
  \<^item> \<open>PDatetime s\<close>, \<open>PDate s\<close>: a \<^verbatim>\<open>datetime.datetime\<close>, a
    \<^verbatim>\<open>datetime.date\<close>, with \<^verbatim>\<open>isoformat()\<close> returning \<open>s\<close>;
  \<^item> \<open>PDecimal x\<close>: a \<^verbatim>\<open>decimal.Decimal\<close> with \<^verbatim>\<open>float(obj) == x\<close>;
  \<^item> \<open>PImage uri\<close>: a \<^verbatim>\<open>PIL.Image.Image\<close> for which
    \<^verbatim>\<open>ImageUriValidator.pil_image_to_uri\<close> returns \<open>uri\<close>;
  \<^item> \<open>PArrayLike lst\<close>: any other object with \<^verbatim>\<open>tolist()\<close>, returning \<open>lst\<close>;
  \<^item> \<open>POpaque n\<close>: an object with none of these methods (\<open>n\<close> tells two apart).
\<close>

datatype pyobj =
    PNone
  | PBool bool
  | PInt int
  | PFloat pyfloat
  | PStr string
  | PList "pyobj list"
  | PTuple "pyobj list"
  | PDict "(string \<times> pyobj) list"
  | PPlotly pyobj
  | PMasked
  | PNdArray char pyobj pyobj pyobj
  | PDatetime64 string pyobj
  | PNaT
  | PSeries char pyobj "pyobj list" pyobj
  | PDatetimeIndex char pyobj "pyobj list" pyobj
  | PTimestamp string pyobj
  | PDatetime string
  | PDate string
  | PDecimal pyfloat
  | PImage string
  | PArrayLike pyobj
  | POpaque nat

text \<open>
  The optional modules, as \<^verbatim>\<open>_to_json_plotly\<close> collects them in the dict
  \<^verbatim>\<open>modules\<close> with \<^verbatim>\<open>get_module(..., should_load=False)\<close>: each is None or the
  module. Of Sage the code uses membership in \<^verbatim>\<open>sage_all.RR\<close> and
  \<^verbatim>\<open>sage_all.ZZ\<close> and the conversions \<^verbatim>\<open>float(obj)\<close>, \<^verbatim>\<open>int(obj)\<close> of a member;
  these are Sage's, so they are fields of the module. Of numpy, pandas and PIL it uses
  identity and \<^verbatim>\<open>isinstance\<close> tests, which the constructors of \<open>pyobj\<close> decide.
\<close>

record sage_module =
  RR_contains :: "pyobj \<Rightarrow> bool"
  ZZ_contains :: "pyobj \<Rightarrow> bool"
  float_of :: "pyobj \<Rightarrow> pyfloat"
  int_of :: "pyobj \<Rightarrow> int"

record adapters =
  mod_sage_all :: "sage_module option"
  mod_np :: bool
  mod_pd :: bool
  mod_image :: bool

text \<open>
  A list comprehension over calls that may raise: the first exception, in the order of
  the list, is the comprehension's.
\<close>

fun sequence :: "('e + 'a) list \<Rightarrow> 'e + 'a list" where
  "sequence [] = Inr []"
| "sequence (Inl e # _) = Inl e"
| "sequence (Inr x # rs) = (case sequence rs of Inl e \<Rightarrow> Inl e | Inr xs \<Rightarrow> Inr (x # xs))"

text \<open>
  The methods the code calls inside \<^verbatim>\<open>try\<close>: None is the \<^verbatim>\<open>AttributeError\<close> of an
  object without the method. \<^verbatim>\<open>pandas.NaT\<close> is an instance of
  \<^verbatim>\<open>datetime.datetime\<close> and has \<^verbatim>\<open>isoformat()\<close>; a \<^verbatim>\<open>DatetimeIndex\<close> has
  \<^verbatim>\<open>to_pydatetime()\<close>, which returns an object array of its datetimes. The code
  that follows the call asks that array for \<^verbatim>\<open>isoformat\<close> (which it has not), tests
  whether it is a \<^verbatim>\<open>datetime.datetime\<close> (it is not) and calls its \<^verbatim>\<open>tolist()\<close>, so
  the array is an object with \<^verbatim>\<open>tolist()\<close> here.
\<close>

fun is_scalar :: "pyobj \<Rightarrow> bool" where
  "is_scalar (PBool _) = True"
| "is_scalar (PInt _) = True"
| "is_scalar (PFloat _) = True"
| "is_scalar (PStr _) = True"
| "is_scalar _ = False"

fun to_plotly_json :: "pyobj \<Rightarrow> pyobj option" where
  "to_plotly_json (PPlotly v) = Some v"
| "to_plotly_json _ = None"

fun elements :: "pyobj \<Rightarrow> pyobj list option" where
  "elements (PList xs) = Some xs"
| "elements (PTuple xs) = Some xs"
| "elements _ = None"

fun dict_items :: "pyobj \<Rightarrow> (string \<times> pyobj) list option" where
  "dict_items (PDict kvs) = Some kvs"
| "dict_items _ = None"

fun to_pydatetime :: "pyobj \<Rightarrow> pyobj option" where
  "to_pydatetime (PTimestamp s dt) = Some dt"
| "to_pydatetime (PDatetimeIndex k vals dts lst) =
     Some (PArrayLike (PList dts))"
| "to_pydatetime _ = None"

fun isoformat :: "pyobj \<Rightarrow> string option" where
  "isoformat (PDatetime s) = Some s"
| "isoformat (PDate s) = Some s"
| "isoformat (PTimestamp s dt) = Some s"
| "isoformat PNaT = Some ''NaT''"
| "isoformat _ = None"

fun is_datetime :: "pyobj \<Rightarrow> bool" where
  "is_datetime (PDatetime _) = True"
| "is_datetime (PTimestamp _ _) = True"
| "is_datetime PNaT = True"
| "is_datetime _ = False"

fun tolist :: "pyobj \<Rightarrow> pyobj option" where
  "tolist (PNdArray k c lst ds) = Some lst"
| "tolist PMasked = Some PNone"
| "tolist (PDatetime64 s lst) = Some lst"
| "tolist (PSeries k vals dts lst) = Some lst"
| "tolist (PDatetimeIndex k vals dts lst) = Some lst"
| "tolist (PArrayLike lst) = Some lst"
| "tolist _ = None"

section \<open>clean_to_json_compatible\<close>

text \<open>
  Each block of the function after the unpacking of \<^verbatim>\<open>kwargs\<close> either returns (or
  raises) or falls through to the next block, with \<^verbatim>\<open>obj\<close> possibly reassigned.
\<close>

datatype flow = Return "py_error + pyobj" | Fallthrough pyobj

fun and_then :: "flow \<Rightarrow> (pyobj \<Rightarrow> flow) \<Rightarrow> flow" where
  "and_then (Return r) _ = Return r"
| "and_then (Fallthrough obj) rule = rule obj"

definition sage_rule :: "adapters \<Rightarrow> pyobj \<Rightarrow> flow" where
  "sage_rule m obj =
     (case mod_sage_all m of
        None \<Rightarrow> Fallthrough obj
      | Some sg \<Rightarrow>
          if RR_contains sg obj then Return (Inr (PFloat (float_of sg obj)))
          else if ZZ_contains sg obj then Return (Inr (PInt (int_of sg obj)))
          else Fallthrough obj)"

definition numpy_rule :: "bool \<Rightarrow> adapters \<Rightarrow> pyobj \<Rightarrow> flow" where
  "numpy_rule numpy_allowed m obj =
     (if mod_np m then
        (case obj of
           PMasked \<Rightarrow> Return (Inr (PFloat NaN))
         | PNdArray k c lst ds \<Rightarrow>
             if numpy_allowed \<and> k \<in> set ''biuf'' then Return (Inr c)
             else if k = CHR ''M'' then Return (Inr ds)
             else if k = CHR ''U'' then Return (Inr lst)
             else if k = CHR ''O'' then Fallthrough lst
             else Fallthrough obj
         | PDatetime64 s lst \<Rightarrow> Return (Inr (PStr s))
         | _ \<Rightarrow> Fallthrough obj)
      else Fallthrough obj)"

definition isoformat_all :: "pyobj list \<Rightarrow> py_error + pyobj list" where
  "isoformat_all dts =
     sequence (map (\<lambda>d. case isoformat d of None \<Rightarrow> Inl AttributeError | Some s \<Rightarrow> Inr (PStr s)) dts)"

definition pandas_values :: "bool \<Rightarrow> bool \<Rightarrow> adapters \<Rightarrow> pyobj \<Rightarrow> char \<Rightarrow> pyobj \<Rightarrow> pyobj list \<Rightarrow> flow" where
  "pandas_values numpy_allowed datetime_allowed m obj k vals dts =
     (if numpy_allowed \<and> k \<in> set ''biuf'' then
        (if mod_np m then Return (Inr vals) else Return (Inl AttributeError))
      else if k = CHR ''M'' then
        (if \<not> datetime_allowed then Return (map_sum id PList (isoformat_all dts))
         else Return (Inr (PList dts)))
      else Fallthrough obj)"

definition pandas_rule :: "bool \<Rightarrow> bool \<Rightarrow> adapters \<Rightarrow> pyobj \<Rightarrow> flow" where
  "pandas_rule numpy_allowed datetime_allowed m obj =
     (if mod_pd m then
        (case obj of
           PNaT \<Rightarrow> Return (Inr PNone)
         | PSeries k vals dts lst \<Rightarrow> pandas_values numpy_allowed datetime_allowed m obj k vals dts
         | PDatetimeIndex k vals dts lst \<Rightarrow> pandas_values numpy_allowed datetime_allowed m obj k vals dts
         | _ \<Rightarrow> Fallthrough obj)
      else Fallthrough obj)"

definition datetime_rule :: "bool \<Rightarrow> pyobj \<Rightarrow> flow" where
  "datetime_rule datetime_allowed obj0 =
     (let obj = (case to_pydatetime obj0 of Some d \<Rightarrow> d | None \<Rightarrow> obj0) in
      if \<not> datetime_allowed then
        (case isoformat obj of Some s \<Rightarrow> Return (Inr (PStr s)) | None \<Rightarrow> Fallthrough obj)
      else if is_datetime obj then Return (Inr obj)
      else Fallthrough obj)"

definition tolist_rule :: "pyobj \<Rightarrow> flow" where
  "tolist_rule obj = (case tolist obj of Some lst \<Rightarrow> Return (Inr lst) | None \<Rightarrow> Fallthrough obj)"

definition decimal_rule :: "pyobj \<Rightarrow> flow" where
  "decimal_rule obj = (case obj of PDecimal x \<Rightarrow> Return (Inr (PFloat x)) | _ \<Rightarrow> Fallthrough obj)"

definition pil_rule :: "adapters \<Rightarrow> pyobj \<Rightarrow> flow" where
  "pil_rule m obj =
     (case obj of
        PImage uri \<Rightarrow> if mod_image m then Return (Inr (PStr uri)) else Fallthrough obj
      | _ \<Rightarrow> Fallthrough obj)"

text \<open>
  The blocks in the order of the source: Sage, numpy, pandas, datetime and date (these
  four come before the \<^verbatim>\<open>tolist()\<close> block), then \<^verbatim>\<open>tolist()\<close>, Decimal, PIL.
\<close>

definition rules_before_tolist :: "bool \<Rightarrow> bool \<Rightarrow> adapters \<Rightarrow> pyobj \<Rightarrow> flow" where
  "rules_before_tolist numpy_allowed datetime_allowed m obj =
     and_then (and_then (and_then
       (sage_rule m obj)
       (numpy_rule numpy_allowed m))
       (pandas_rule numpy_allowed datetime_allowed m))
       (datetime_rule datetime_allowed)"

definition object_rules :: "bool \<Rightarrow> bool \<Rightarrow> adapters \<Rightarrow> pyobj \<Rightarrow> flow" where
  "object_rules numpy_allowed datetime_allowed m obj =
     and_then (and_then (and_then
       (rules_before_tolist numpy_allowed datetime_allowed m obj)
       tolist_rule)
       decimal_rule)
       (pil_rule m)"

lemma pandas_values_size:
  "pandas_values na da m obj k vals dts = Fallthrough obj' \<Longrightarrow> obj' = obj"
  by (auto simp: pandas_values_def split: if_splits)

lemma pandas_rule_size:
  "pandas_rule na da m obj = Fallthrough obj' \<Longrightarrow> obj' = obj"
  by (auto simp: pandas_rule_def split: if_splits pyobj.splits dest: pandas_values_size)

lemma numpy_rule_size:
  "numpy_rule na m obj = Fallthrough obj' \<Longrightarrow> size obj' \<le> size obj"
  by (auto simp: numpy_rule_def split: if_splits pyobj.splits)

lemma sage_rule_size:
  "sage_rule m obj = Fallthrough obj' \<Longrightarrow> obj' = obj"
  by (auto simp: sage_rule_def split: if_splits option.splits)


lemma datetime_rule_size:
  "datetime_rule da obj = Fallthrough obj' \<Longrightarrow> obj' = obj \<or> size obj' < size obj \<or> tolist obj' \<noteq> None"
  by (cases obj) (auto simp: datetime_rule_def Let_def split: if_splits option.splits)

lemma tolist_rule_size:
  "tolist_rule obj = Fallthrough obj' \<Longrightarrow> obj' = obj \<and> tolist obj = None"
  by (auto simp: tolist_rule_def split: option.splits)

lemma decimal_rule_size:
  "decimal_rule obj = Fallthrough obj' \<Longrightarrow> obj' = obj"
  by (auto simp: decimal_rule_def split: pyobj.splits)

lemma pil_rule_size:
  "pil_rule m obj = Fallthrough obj' \<Longrightarrow> obj' = obj"
  by (auto simp: pil_rule_def split: pyobj.splits if_splits)

lemma and_then_Fallthrough:
  "and_then fl rule = Fallthrough obj' \<Longrightarrow> \<exists>obj1. fl = Fallthrough obj1 \<and> rule obj1 = Fallthrough obj'"
  by (cases fl) auto

lemma object_rules_size:
  assumes "object_rules na da m obj = Fallthrough obj'"
  shows "obj' = obj \<or> size obj' < size obj"
proof -
  from assms obtain o1 o2 o3 o4 o5 o6 where
    s: "sage_rule m obj = Fallthrough o1" and
    n: "numpy_rule na m o1 = Fallthrough o2" and
    p: "pandas_rule na da m o2 = Fallthrough o3" and
    d: "datetime_rule da o3 = Fallthrough o4" and
    t: "tolist_rule o4 = Fallthrough o5" and
    c: "decimal_rule o5 = Fallthrough o6" and
    i: "pil_rule m o6 = Fallthrough obj'"
    unfolding object_rules_def rules_before_tolist_def by (blast dest: and_then_Fallthrough)
  have 1: "o1 = obj" using s by (rule sage_rule_size)
  have 2: "o2 = obj \<or> size o2 < size obj"
    using n 1 by (auto simp: numpy_rule_def split: if_splits pyobj.splits)
  have 3: "o3 = o2" using p by (rule pandas_rule_size)
  have 4: "o4 = o3 \<or> size o4 < size o3 \<or> tolist o4 \<noteq> None" using d by (rule datetime_rule_size)
  have 5: "o5 = o4 \<and> tolist o4 = None" using t by (rule tolist_rule_size)
  have 6: "o6 = o5" using c by (rule decimal_rule_size)
  have 7: "obj' = o6" using i by (rule pil_rule_size)
  from 2 3 4 5 6 7 show ?thesis by auto
qed

lemma elements_size: "elements obj = Some xs \<Longrightarrow> x \<in> set xs \<Longrightarrow> size x < size obj"
  by (cases obj) (auto simp: less_Suc_eq_le size_list_estimation')

lemma final_elements_size:
  assumes "object_rules na da m obj = Fallthrough obj'" "elements obj' = Some xs" "x \<in> set xs"
  shows "size x < size obj"
proof -
  have b: "obj' = obj \<or> size obj' < size obj" using assms(1) by (rule object_rules_size)
  have c: "size x < size obj'" using assms(2,3) by (rule elements_size)
  from b c show ?thesis by auto
qed

lemma size_dict_value:
  "(k, v) \<in> set kvs \<Longrightarrow> size v \<le> size_list (size_prod (\<lambda>x. 0) size) kvs"
  by (induction kvs) auto

lemma dict_items_size: "dict_items obj = Some kvs \<Longrightarrow> (k, v) \<in> set kvs \<Longrightarrow> size v < size obj"
  by (cases obj) (auto simp: less_Suc_eq_le dest: size_dict_value)

lemma unwrap_size:
  "size (case to_plotly_json obj0 of Some v \<Rightarrow> v | None \<Rightarrow> obj0) \<le> size obj0"
  by (cases obj0) auto

lemma to_plotly_json_size: "to_plotly_json obj = Some v \<Longrightarrow> size v < size obj"
  by (cases obj) auto

text \<open>
  \<^verbatim>\<open>clean_to_json_compatible(obj, **kwargs)\<close>. The callers of this module pass the
  three keyword arguments; \<open>modules\<close> is None when the caller leaves the keyword out
  (\<^verbatim>\<open>kwargs.get("modules", {})\<close> is then the empty dict, and
  \<^verbatim>\<open>modules["sage_all"]\<close> raises \<^verbatim>\<open>KeyError\<close>), and the dict of the four modules
  otherwise. The dict comprehension keeps the keys and cleans the values in order.
\<close>

function clean_to_json_compatible ::
  "bool \<Rightarrow> bool \<Rightarrow> adapters option \<Rightarrow> pyobj \<Rightarrow> py_error + pyobj" where
  "clean_to_json_compatible numpy_allowed datetime_allowed modules obj0 =
    (if is_scalar obj0 then Inr obj0 else
     let obj = (case to_plotly_json obj0 of Some v \<Rightarrow> v | None \<Rightarrow> obj0) in
     case elements obj of
       Some xs \<Rightarrow>
         map_sum id PList
           (sequence (map (clean_to_json_compatible numpy_allowed datetime_allowed modules) xs))
     | None \<Rightarrow>
     (case dict_items obj of
       Some kvs \<Rightarrow>
         map_sum id (\<lambda>vs. PDict (zip (map fst kvs) vs))
           (sequence (map (clean_to_json_compatible numpy_allowed datetime_allowed modules)
              (map snd kvs)))
     | None \<Rightarrow>
     (case modules of
       None \<Rightarrow> Inl (KeyError ''sage_all'')
     | Some m \<Rightarrow>
     (case object_rules numpy_allowed datetime_allowed m obj of
       Return r \<Rightarrow> r
     | Fallthrough obj' \<Rightarrow>
     (case elements obj' of
       Some xs \<Rightarrow>
         if xs \<noteq> [] then
           map_sum id PList
             (sequence (map (clean_to_json_compatible numpy_allowed datetime_allowed modules) xs))
         else Inr obj'
     | None \<Rightarrow> Inr obj')))))"
  by pat_completeness auto
termination
proof (relation "measure (\<lambda>(na, da, ms, obj). size obj)", goal_cases)
  case 1
  show ?case by simp
next
  case 2
  then show ?case
    apply (auto split: option.splits)
     apply (erule (2) final_elements_size)
    apply (drule (2) final_elements_size)
    apply (drule to_plotly_json_size)
    apply simp
    done
next
  case 3
  then show ?case
    apply (auto split: option.splits)
     apply (erule (1) dict_items_size)
    apply (drule (1) dict_items_size)
    apply (drule to_plotly_json_size)
    apply simp
    done
next
  case 4
  then show ?case
    apply (auto split: option.splits)
     apply (erule (1) elements_size)
    apply (drule (1) elements_size)
    apply (drule to_plotly_json_size)
    apply simp
    done
qed


section \<open>The json module\<close>

record json_opts =
  sort_keys :: bool
  indent :: "nat option"
  separators :: "(string \<times> string) option"

definition item_separator :: "json_opts \<Rightarrow> string" where
  "item_separator opts =
     (case separators opts of
        Some (i, k) \<Rightarrow> i
      | None \<Rightarrow> (if indent opts = None then '', '' else '',''))"

definition key_separator :: "json_opts \<Rightarrow> string" where
  "key_separator opts = (case separators opts of Some (i, k) \<Rightarrow> k | None \<Rightarrow> '': '')"

definition newline_indent :: "json_opts \<Rightarrow> nat \<Rightarrow> string" where
  "newline_indent opts level =
     (case indent opts of
        None \<Rightarrow> []
      | Some n \<Rightarrow> CHR 0x0A # replicate (n * level) CHR '' '')"

definition digit_char :: "nat \<Rightarrow> char" where
  "digit_char n = ''0123456789'' ! n"

fun nat_repr :: "nat \<Rightarrow> string" where
  "nat_repr n = (if n < 10 then [digit_char n] else nat_repr (n div 10) @ [digit_char (n mod 10)])"

declare nat_repr.simps [simp del]

definition int_repr :: "int \<Rightarrow> string" where
  "int_repr i = (if i < 0 then CHR ''-'' # nat_repr (nat (- i)) else nat_repr (nat i))"

fun float_repr :: "pyfloat \<Rightarrow> string" where
  "float_repr (Finite r) = r"
| "float_repr NaN = ''NaN''"
| "float_repr PosInf = ''Infinity''"
| "float_repr NegInf = ''-Infinity''"

definition hex_digit :: "nat \<Rightarrow> char" where
  "hex_digit n = ''0123456789abcdef'' ! n"

definition escape_char :: "char \<Rightarrow> string" where
  "escape_char c =
     (if c = CHR 0x5C then [CHR 0x5C, CHR 0x5C]
      else if c = CHR 0x22 then [CHR 0x5C, CHR 0x22]
      else if c = CHR 0x08 then [CHR 0x5C, CHR ''b'']
      else if c = CHR 0x0C then [CHR 0x5C, CHR ''f'']
      else if c = CHR 0x0A then [CHR 0x5C, CHR ''n'']
      else if c = CHR 0x0D then [CHR 0x5C, CHR ''r'']
      else if c = CHR 0x09 then [CHR 0x5C, CHR ''t'']
      else if CHR '' '' \<le> c \<and> c \<le> CHR ''~'' then [c]
      else [CHR 0x5C, CHR ''u'', CHR ''0'', CHR ''0'',
            hex_digit (of_char c div 16), hex_digit (of_char c mod 16)])"

definition encode_basestring_ascii :: "string \<Rightarrow> string" where
  "encode_basestring_ascii s = CHR 0x22 # concat (map escape_char s) @ [CHR 0x22]"

fun intercalate :: "'a list \<Rightarrow> 'a list list \<Rightarrow> 'a list" where
  "intercalate sep [] = []"
| "intercalate sep [x] = x"
| "intercalate sep (x # y # ys) = x @ sep @ intercalate sep (y # ys)"

definition dict_order :: "json_opts \<Rightarrow> (string \<times> pyobj) list \<Rightarrow> (string \<times> pyobj) list" where
  "dict_order opts kvs = (if sort_keys opts then sort_key fst kvs else kvs)"

lemma set_dict_order: "set (dict_order opts kvs) = set kvs"
  by (simp add: dict_order_def)

function (sequential) iterencode :: "json_opts \<Rightarrow> nat \<Rightarrow> pyobj \<Rightarrow> py_error + string" where
  "iterencode opts level PNone = Inr ''null''"
| "iterencode opts level (PBool b) = Inr (if b then ''true'' else ''false'')"
| "iterencode opts level (PInt i) = Inr (int_repr i)"
| "iterencode opts level (PFloat x) = Inr (float_repr x)"
| "iterencode opts level (PStr s) = Inr (encode_basestring_ascii s)"
| "iterencode opts level (PList xs) =
     (if xs = [] then Inr ''[]''
      else map_sum id
        (\<lambda>chunks. ''['' @ newline_indent opts (Suc level)
           @ intercalate (item_separator opts @ newline_indent opts (Suc level)) chunks
           @ newline_indent opts level @ '']'')
        (sequence (map (iterencode opts (Suc level)) xs)))"
| "iterencode opts level (PTuple xs) =
     (if xs = [] then Inr ''[]''
      else map_sum id
        (\<lambda>chunks. ''['' @ newline_indent opts (Suc level)
           @ intercalate (item_separator opts @ newline_indent opts (Suc level)) chunks
           @ newline_indent opts level @ '']'')
        (sequence (map (iterencode opts (Suc level)) xs)))"
| "iterencode opts level (PDict kvs) =
     (if kvs = [] then Inr ''{}''
      else map_sum id
        (\<lambda>chunks. ''{'' @ newline_indent opts (Suc level)
           @ intercalate (item_separator opts @ newline_indent opts (Suc level))
               (map2 (\<lambda>k chunk. encode_basestring_ascii k @ key_separator opts @ chunk)
                  (map fst (dict_order opts kvs)) chunks)
           @ newline_indent opts level @ ''}'')
        (sequence (map (iterencode opts (Suc level)) (map snd (dict_order opts kvs)))))"
| "iterencode opts level _ = Inl TypeError"
  by pat_completeness auto
termination
proof (relation "measure (\<lambda>(opts, level, obj). size obj)", goal_cases)
  case 1
  show ?case by simp
next
  case (2 opts level xs x)
  then show ?case by (simp add: less_Suc_eq_le size_list_estimation')
next
  case (3 opts level xs x)
  then show ?case by (simp add: less_Suc_eq_le size_list_estimation')
next
  case (4 opts level kvs x)
  then show ?case by (auto simp: less_Suc_eq_le set_dict_order dest: size_dict_value)
qed

definition json_dumps :: "json_opts \<Rightarrow> pyobj \<Rightarrow> py_error + string" where
  "json_dumps opts obj = iterencode opts 0 obj"


definition is_ws :: "char \<Rightarrow> bool" where
  "is_ws c = (c = CHR '' '' \<or> c = CHR 0x09 \<or> c = CHR 0x0A \<or> c = CHR 0x0D)"

definition skip_ws :: "string \<Rightarrow> string" where
  "skip_ws s = dropWhile is_ws s"

definition is_digit :: "char \<Rightarrow> bool" where
  "is_digit c = (CHR ''0'' \<le> c \<and> c \<le> CHR ''9'')"

definition digit_val :: "char \<Rightarrow> nat" where
  "digit_val c = of_char c - of_char CHR ''0''"

definition nat_of_digits :: "string \<Rightarrow> nat" where
  "nat_of_digits ds = foldl (\<lambda>n c. 10 * n + digit_val c) 0 ds"

definition hex_val :: "char \<Rightarrow> nat option" where
  "hex_val c =
     (if is_digit c then Some (digit_val c)
      else if CHR ''a'' \<le> c \<and> c \<le> CHR ''f'' then Some (of_char c - of_char CHR ''a'' + 10)
      else if CHR ''A'' \<le> c \<and> c \<le> CHR ''F'' then Some (of_char c - of_char CHR ''A'' + 10)
      else None)"

definition decode_uXXXX :: "string \<Rightarrow> nat option" where
  "decode_uXXXX s =
     (case map hex_val (take 4 s) of
        [Some a, Some b, Some c, Some d] \<Rightarrow> Some (((a * 16 + b) * 16 + c) * 16 + d)
      | _ \<Rightarrow> None)"

definition backslash :: "char \<Rightarrow> char option" where
  "backslash e =
     (if e = CHR 0x22 then Some (CHR 0x22)
      else if e = CHR 0x5C then Some (CHR 0x5C)
      else if e = CHR ''/'' then Some (CHR ''/'')
      else if e = CHR ''b'' then Some (CHR 0x08)
      else if e = CHR ''f'' then Some (CHR 0x0C)
      else if e = CHR ''n'' then Some (CHR 0x0A)
      else if e = CHR ''r'' then Some (CHR 0x0D)
      else if e = CHR ''t'' then Some (CHR 0x09)
      else None)"

function scanstring :: "string \<Rightarrow> py_error + (string \<times> string)" where
  "scanstring s =
     (case s of
        [] \<Rightarrow> Inl JSONDecodeError
      | c # cs \<Rightarrow>
          if c = CHR 0x22 then Inr ([], cs)
          else if c = CHR 0x5C then
            (case cs of
               [] \<Rightarrow> Inl JSONDecodeError
             | e # es \<Rightarrow>
                 if e = CHR ''u'' then
                   (case decode_uXXXX es of
                      None \<Rightarrow> Inl JSONDecodeError
                    | Some uni \<Rightarrow>
                        if uni < 256 then
                          map_sum id (\<lambda>(t, r). (char_of uni # t, r)) (scanstring (drop 4 es))
                        else Inl OutsideModel)
                 else
                   (case backslash e of
                      None \<Rightarrow> Inl JSONDecodeError
                    | Some d \<Rightarrow> map_sum id (\<lambda>(t, r). (d # t, r)) (scanstring es)))
          else if c < CHR '' '' then Inl JSONDecodeError
          else map_sum id (\<lambda>(t, r). (c # t, r)) (scanstring cs))"
  by pat_completeness auto
termination
  by (relation "measure length") auto

declare scanstring.simps [simp del]

text \<open>
  The number pattern of the scanner,
  \<^verbatim>\<open>(-?(?:0|[1-9]\d*))(\.\d+)?([eE][-+]?\d+)?\<close>, one function for each of its three
  groups: the text the group matches and the text after it. A literal with a fraction
  or an exponent is \<^verbatim>\<open>parse_float(integer + frac + exp)\<close>, any other is
  \<^verbatim>\<open>int(integer)\<close>; \<^verbatim>\<open>parse_float\<close> is the builtin \<^verbatim>\<open>float\<close> unless the caller of
  \<^verbatim>\<open>json.loads\<close> gives another, which this module never does.
\<close>

definition lex_digits :: "string \<Rightarrow> string \<Rightarrow> (string \<times> string) option" where
  "lex_digits sign s =
     (let digits = takeWhile is_digit s
      in if digits = [] then None
         else
           let ipart = (if hd digits = CHR ''0'' then ''0'' else digits)
           in Some (sign @ ipart, drop (length ipart) s))"

definition lex_integer :: "string \<Rightarrow> (string \<times> string) option" where
  "lex_integer s =
     (case s of
        c # cs \<Rightarrow> if c = CHR ''-'' then lex_digits ''-'' cs else lex_digits [] s
      | [] \<Rightarrow> None)"

definition lex_frac :: "string \<Rightarrow> string \<times> string" where
  "lex_frac s =
     (case s of
        c # cs \<Rightarrow>
          if c = CHR ''.'' \<and> takeWhile is_digit cs \<noteq> [] then
            (c # takeWhile is_digit cs, dropWhile is_digit cs)
          else ([], s)
      | [] \<Rightarrow> ([], s))"

definition lex_exp :: "string \<Rightarrow> string \<times> string" where
  "lex_exp s =
     (case s of
        c # cs \<Rightarrow>
          if c = CHR ''e'' \<or> c = CHR ''E'' then
            (let (esign, s1) = (case cs of
                                  d # ds \<Rightarrow>
                                    if d = CHR ''+'' \<or> d = CHR ''-'' then ([d], ds) else ([], cs)
                                | [] \<Rightarrow> ([], cs))
             in if takeWhile is_digit s1 = [] then ([], s)
                else (c # esign @ takeWhile is_digit s1, dropWhile is_digit s1))
          else ([], s)
      | [] \<Rightarrow> ([], s))"

definition int_of_literal :: "string \<Rightarrow> int" where
  "int_of_literal s =
     (case s of
        c # cs \<Rightarrow> if c = CHR ''-'' then - int (nat_of_digits cs) else int (nat_of_digits s)
      | [] \<Rightarrow> 0)"

definition match_number :: "(string \<Rightarrow> pyfloat) \<Rightarrow> string \<Rightarrow> (pyobj \<times> string) option" where
  "match_number parse_float s =
     (case lex_integer s of
        None \<Rightarrow> None
      | Some (integer, s2) \<Rightarrow>
          (let (frac, s3) = lex_frac s2;
               (expo, rest) = lex_exp s3
           in if frac = [] \<and> expo = [] then Some (PInt (int_of_literal integer), rest)
              else Some (PFloat (parse_float (integer @ frac @ expo)), rest)))"

definition py_dict :: "(string \<times> pyobj) list \<Rightarrow> (string \<times> pyobj) list" where
  "py_dict pairs = foldl (\<lambda>d (k, v). AList.update k v d) [] pairs"

fun scan_once ::
  "(string \<Rightarrow> pyfloat) \<Rightarrow> (string \<Rightarrow> pyobj) \<Rightarrow> nat \<Rightarrow> string \<Rightarrow> py_error + (pyobj \<times> string)"
and scan_array ::
  "(string \<Rightarrow> pyfloat) \<Rightarrow> (string \<Rightarrow> pyobj) \<Rightarrow> nat \<Rightarrow> string \<Rightarrow> py_error + (pyobj list \<times> string)"
and scan_object ::
  "(string \<Rightarrow> pyfloat) \<Rightarrow> (string \<Rightarrow> pyobj) \<Rightarrow> nat \<Rightarrow> string
     \<Rightarrow> py_error + ((string \<times> pyobj) list \<times> string)"
where
  "scan_once parse_float parse_constant 0 s = Inl OutsideModel"
| "scan_once parse_float parse_constant (Suc n) s =
     (case s of
        [] \<Rightarrow> Inl JSONDecodeError
      | c # cs \<Rightarrow>
          if c = CHR 0x22 then map_sum id (\<lambda>(t, r). (PStr t, r)) (scanstring cs)
          else if c = CHR ''{'' then
            (case skip_ws cs of
               [] \<Rightarrow> Inl JSONDecodeError
             | d # ds \<Rightarrow>
                 if d = CHR ''}'' then Inr (PDict [], ds)
                 else if d = CHR 0x22 then
                   map_sum id (\<lambda>(pairs, r). (PDict (py_dict pairs), r))
                     (scan_object parse_float parse_constant n ds)
                 else Inl JSONDecodeError)
          else if c = CHR ''['' then
            (case skip_ws cs of
               [] \<Rightarrow> Inl JSONDecodeError
             | d # ds \<Rightarrow>
                 if d = CHR '']'' then Inr (PList [], ds)
                 else map_sum id (\<lambda>(vs, r). (PList vs, r))
                     (scan_array parse_float parse_constant n (d # ds)))
          else if c = CHR ''n'' \<and> take 4 s = ''null'' then Inr (PNone, drop 4 s)
          else if c = CHR ''t'' \<and> take 4 s = ''true'' then Inr (PBool True, drop 4 s)
          else if c = CHR ''f'' \<and> take 5 s = ''false'' then Inr (PBool False, drop 5 s)
          else
            (case match_number parse_float s of
               Some r \<Rightarrow> Inr r
             | None \<Rightarrow>
                 if c = CHR ''N'' \<and> take 3 s = ''NaN'' then Inr (parse_constant ''NaN'', drop 3 s)
                 else if c = CHR ''I'' \<and> take 8 s = ''Infinity'' then
                   Inr (parse_constant ''Infinity'', drop 8 s)
                 else if c = CHR ''-'' \<and> take 9 s = ''-Infinity'' then
                   Inr (parse_constant ''-Infinity'', drop 9 s)
                 else Inl JSONDecodeError))"
| "scan_array parse_float parse_constant 0 s = Inl OutsideModel"
| "scan_array parse_float parse_constant (Suc n) s =
     (case scan_once parse_float parse_constant n s of
        Inl e \<Rightarrow> Inl e
      | Inr (v, r) \<Rightarrow>
          (case skip_ws r of
             [] \<Rightarrow> Inl JSONDecodeError
           | d # ds \<Rightarrow>
               if d = CHR '']'' then Inr ([v], ds)
               else if d = CHR '','' then
                 map_sum id (\<lambda>(vs, r'). (v # vs, r')) (scan_array parse_float parse_constant n (skip_ws ds))
               else Inl JSONDecodeError))"
| "scan_object parse_float parse_constant 0 s = Inl OutsideModel"
| "scan_object parse_float parse_constant (Suc n) s =
     (case scanstring s of
        Inl e \<Rightarrow> Inl e
      | Inr (key, r) \<Rightarrow>
          (case skip_ws r of
             [] \<Rightarrow> Inl JSONDecodeError
           | c # cs \<Rightarrow>
               if c \<noteq> CHR '':'' then Inl JSONDecodeError
               else
                 (case scan_once parse_float parse_constant n (skip_ws cs) of
                    Inl e \<Rightarrow> Inl e
                  | Inr (v, r1) \<Rightarrow>
                      (case skip_ws r1 of
                         [] \<Rightarrow> Inl JSONDecodeError
                       | d # ds \<Rightarrow>
                           if d = CHR ''}'' then Inr ([(key, v)], ds)
                           else if d = CHR '','' then
                             (case skip_ws ds of
                                [] \<Rightarrow> Inl JSONDecodeError
                              | q # qs \<Rightarrow>
                                  if q = CHR 0x22 then
                                    map_sum id (\<lambda>(pairs, r'). ((key, v) # pairs, r'))
                                      (scan_object parse_float parse_constant n qs)
                                  else Inl JSONDecodeError)
                           else Inl JSONDecodeError))))"

definition json_loads ::
  "(string \<Rightarrow> pyfloat) \<Rightarrow> (string \<Rightarrow> pyobj) \<Rightarrow> string \<Rightarrow> py_error + pyobj" where
  "json_loads parse_float parse_constant s =
     (case scan_once parse_float parse_constant (Suc (length s)) (skip_ws s) of
        Inl e \<Rightarrow> Inl e
      | Inr (obj, r) \<Rightarrow> if skip_ws r = [] then Inr obj else Inl JSONDecodeError)"

definition coerce_to_strict :: "string \<Rightarrow> pyobj" where
  "coerce_to_strict const =
     (if const \<in> set [''Infinity'', ''-Infinity'', ''NaN''] then PNone else PStr const)"

definition default_constant :: "string \<Rightarrow> pyobj" where
  "default_constant const =
     (if const = ''NaN'' then PFloat NaN
      else if const = ''Infinity'' then PFloat PosInf
      else PFloat NegInf)"

section \<open>Encode and decode\<close>

text \<open>
  What the two functions find in the interpreter when they are called:
  \<^item> \<open>env_orjson\<close>: what \<^verbatim>\<open>get_module("orjson", should_load=True)\<close> answers in this
    call, None or the module (\<^verbatim>\<open>validate_orjson\<close> asks once more in the same call, and
    is taken to get the same answer). Of the module the code calls
    \<^verbatim>\<open>dumps(obj, option=opts).decode("utf8")\<close> and \<^verbatim>\<open>loads(value)\<close>; orjson's
    \<^verbatim>\<open>JSONEncodeError\<close> is a subclass of \<^verbatim>\<open>TypeError\<close> and is the constructor
    \<open>TypeError\<close> here.
  \<^item> \<open>env_modules\<close>: the four \<^verbatim>\<open>get_module(name, should_load=False)\<close>.
  \<^item> \<open>env_float\<close>: the builtin \<^verbatim>\<open>float\<close> on the text of a number literal, which
    \<^verbatim>\<open>json.loads\<close> calls for every literal with a fraction or an exponent: the
    double nearest to the number written, or an infinity when it is too large.
  \<^item> \<open>env_config\<close>: the module's \<^verbatim>\<open>config\<close> object.
\<close>

datatype orjson_option = OPT_SORT_KEYS | OPT_SERIALIZE_NUMPY | OPT_INDENT_2

datatype json_text = StrArg string | BytesArg string | OtherArg pyobj

record orjson_module =
  orjson_dumps :: "orjson_option set \<Rightarrow> pyobj \<Rightarrow> py_error + string"
  orjson_loads :: "json_text \<Rightarrow> py_error + pyobj"

record interpreter =
  env_orjson :: "orjson_module option"
  env_modules :: adapters
  env_float :: "string \<Rightarrow> pyfloat"
  env_config :: JsonConfig

text \<open>
  \<^verbatim>\<open>opts = {"sort_keys": True}\<close>, then \<^verbatim>\<open>opts["indent"] = 2\<close> if \<^verbatim>\<open>pretty\<close> and
  \<^verbatim>\<open>opts["separators"] = (",", ":")\<close> otherwise.
\<close>

definition json_opts_of :: "bool \<Rightarrow> json_opts" where
  "json_opts_of pretty =
     (if pretty then \<lparr>sort_keys = True, indent = Some 2, separators = None\<rparr>
      else \<lparr>sort_keys = True, indent = None, separators = Some ('','', '':'')\<rparr>)"

definition orjson_opts_of :: "bool \<Rightarrow> orjson_option set" where
  "orjson_opts_of pretty =
     (if pretty then {OPT_SORT_KEYS, OPT_SERIALIZE_NUMPY, OPT_INDENT_2}
      else {OPT_SORT_KEYS, OPT_SERIALIZE_NUMPY})"

text \<open>
  The strict-JSON pass of the \<^verbatim>\<open>"json"\<close> engine: the text is returned as it is
  unless \<^verbatim>\<open>"NaN"\<close> or \<^verbatim>\<open>"Infinity"\<close> is a substring; otherwise it is read
  back with \<^verbatim>\<open>parse_constant=coerce_to_strict\<close> and written again. A
  \<^verbatim>\<open>ValueError\<close> of \<^verbatim>\<open>json.loads\<close> is replaced by the module's own.
\<close>

definition strict_json ::
  "(string \<Rightarrow> pyfloat) \<Rightarrow> json_opts \<Rightarrow> string \<Rightarrow> py_error + string" where
  "strict_json parse_float opts encoded_o =
     (if \<not> (sublist ''NaN'' encoded_o \<or> sublist ''Infinity'' encoded_o) then Inr encoded_o
      else
        (case json_loads parse_float coerce_to_strict encoded_o of
           Inl e \<Rightarrow> if e = JSONDecodeError then Inl StrictEncodingFailed else Inl e
         | Inr new_o \<Rightarrow> json_dumps opts new_o))"

text \<open>
  Modelled from the spec: \<^verbatim>\<open>json.dumps(plotly_object, cls=PlotlyJSONEncoder, **opts)\<close>,
  the whole of the \<open>legacy\<close> branch. The encoder is \<^verbatim>\<open>_plotly_utils.utils.PlotlyJSONEncoder\<close>,
  which is not among the sources of this module. The specification describes the legacy
  backend together with the standard one: the item is canonicalized with
  \<^verbatim>\<open>numpy_allowed=false, datetime_allowed=false\<close>, serialized with the mapping keys
  sorted and the whitespace of \<^verbatim>\<open>pretty\<close>, and, if the output contains the substrings
  of the non-finite float tokens, the strict-JSON repair pass is run on it.
\<close>

definition PlotlyJSONEncoder_dumps ::
  "(string \<Rightarrow> pyfloat) \<Rightarrow> adapters \<Rightarrow> json_opts \<Rightarrow> pyobj \<Rightarrow> py_error + string" where
  "PlotlyJSONEncoder_dumps parse_float modules opts plotly_object =
     (case clean_to_json_compatible False False (Some modules) plotly_object of
        Inl e \<Rightarrow> Inl e
      | Inr cleaned \<Rightarrow>
          (case json_dumps opts cleaned of
             Inl e \<Rightarrow> Inl e
           | Inr encoded_o \<Rightarrow> strict_json parse_float opts encoded_o))"

text \<open>
  \<^verbatim>\<open>_to_json_plotly(plotly_object, pretty, engine)\<close>; \<open>engine\<close> is None when the
  caller gives none.
\<close>

definition priv_to_json_plotly ::
  "interpreter \<Rightarrow> pyobj \<Rightarrow> bool \<Rightarrow> string option \<Rightarrow> py_error + string" where
  "priv_to_json_plotly env plotly_object pretty engine =
     (case determine_engine (env_orjson env \<noteq> None) (env_config env) engine of
        Inl e \<Rightarrow> Inl e
      | Inr engine \<Rightarrow>
          if engine \<in> set [''json'', ''legacy''] then
            (let opts = json_opts_of pretty in
             if engine = ''json'' then
               (case clean_to_json_compatible False False (Some (env_modules env)) plotly_object of
                  Inl e \<Rightarrow> Inl e
                | Inr cleaned \<Rightarrow>
                    (case json_dumps opts cleaned of
                       Inl e \<Rightarrow> Inl e
                     | Inr encoded_o \<Rightarrow> strict_json (env_float env) opts encoded_o))
             else PlotlyJSONEncoder_dumps (env_float env) (env_modules env) opts plotly_object)
          else
            (case (validate_orjson (env_orjson env \<noteq> None), env_orjson env) of
               (Inl e, _) \<Rightarrow> Inl e
             | (Inr _, None) \<Rightarrow> Inl AttributeError
             | (Inr _, Some orjson) \<Rightarrow>
                 (let opts = orjson_opts_of pretty;
                      plotly_object =
                        (case to_plotly_json plotly_object of
                           Some v \<Rightarrow> v
                         | None \<Rightarrow> plotly_object)
                  in case orjson_dumps orjson opts plotly_object of
                       Inr s \<Rightarrow> Inr s
                     | Inl e \<Rightarrow>
                         if e \<noteq> TypeError then Inl e
                         else
                           (case clean_to_json_compatible True True (Some (env_modules env))
                                   plotly_object of
                              Inl e \<Rightarrow> Inl e
                            | Inr cleaned \<Rightarrow> orjson_dumps orjson opts cleaned))))"

text \<open>
  \<^verbatim>\<open>value.decode("utf-8")\<close> on bytes: the code points of a well-formed byte string
  (one to four bytes each, no overlong form, no surrogate, nothing above U+10FFFF), and
  \<^verbatim>\<open>UnicodeDecodeError\<close> for any other. A \<^verbatim>\<open>str\<close> of this model holds code points
  below 256, so a well-formed byte string with a larger code point is outside the model.
\<close>

definition continuation :: "char \<Rightarrow> bool" where
  "continuation c = (CHR 0x80 \<le> c \<and> c \<le> CHR 0xBF)"

definition payload :: "char \<Rightarrow> nat" where
  "payload c = of_char c - 0x80"

fun utf8_code_points :: "string \<Rightarrow> nat list option" where
  "utf8_code_points [] = Some []"
| "utf8_code_points (c # cs) =
     (if c < CHR 0x80 then map_option (Cons (of_char c)) (utf8_code_points cs)
      else if CHR 0xC2 \<le> c \<and> c \<le> CHR 0xDF then
        (case cs of
           d # ds \<Rightarrow>
             if continuation d then
               map_option (Cons ((of_char c - 0xC0) * 64 + payload d)) (utf8_code_points ds)
             else None
         | _ \<Rightarrow> None)
      else if CHR 0xE0 \<le> c \<and> c \<le> CHR 0xEF then
        (case cs of
           d # e # es \<Rightarrow>
             if continuation d \<and> continuation e
                \<and> (if c = CHR 0xE0 then CHR 0xA0 \<le> d else True)
                \<and> (if c = CHR 0xED then d \<le> CHR 0x9F else True) then
               map_option (Cons (((of_char c - 0xE0) * 64 + payload d) * 64 + payload e))
                 (utf8_code_points es)
             else None
         | _ \<Rightarrow> None)
      else if CHR 0xF0 \<le> c \<and> c \<le> CHR 0xF4 then
        (case cs of
           d # e # f # fs \<Rightarrow>
             if continuation d \<and> continuation e \<and> continuation f
                \<and> (if c = CHR 0xF0 then CHR 0x90 \<le> d else True)
                \<and> (if c = CHR 0xF4 then d \<le> CHR 0x8F else True) then
               map_option
                 (Cons ((((of_char c - 0xF0) * 64 + payload d) * 64 + payload e) * 64 + payload f))
                 (utf8_code_points fs)
             else None
         | _ \<Rightarrow> None)
      else None)"

definition utf8_decode :: "string \<Rightarrow> py_error + string" where
  "utf8_decode b =
     (case utf8_code_points b of
        None \<Rightarrow> Inl UnicodeDecodeError
      | Some cps \<Rightarrow>
          if list_all (\<lambda>n. n < 256) cps then Inr (map char_of cps) else Inl OutsideModel)"

text \<open>\<^verbatim>\<open>from_json_plotly(value, engine)\<close>.\<close>

definition from_json_plotly ::
  "interpreter \<Rightarrow> json_text \<Rightarrow> string option \<Rightarrow> py_error + pyobj" where
  "from_json_plotly env val engine =
     (case val of
        OtherArg _ \<Rightarrow> Inl InvalidInput
      | _ \<Rightarrow>
        (case determine_engine (env_orjson env \<noteq> None) (env_config env) engine of
           Inl e \<Rightarrow> Inl e
         | Inr engine \<Rightarrow>
             if engine = ''orjson'' then
               (case (validate_orjson (env_orjson env \<noteq> None), env_orjson env) of
                  (Inl e, _) \<Rightarrow> Inl e
                | (Inr _, None) \<Rightarrow> Inl AttributeError
                | (Inr _, Some orjson) \<Rightarrow> orjson_loads orjson val)
             else
               (case val of
                  BytesArg b \<Rightarrow>
                    (case utf8_decode b of
                       Inl e \<Rightarrow> Inl e
                     | Inr s \<Rightarrow> json_loads (env_float env) default_constant s)
                | StrArg s \<Rightarrow> json_loads (env_float env) default_constant s
                | OtherArg _ \<Rightarrow> Inl InvalidInput)))"

text \<open>
  A call in a running process. Both functions begin with
  \<^verbatim>\<open>orjson = get_module("orjson", should_load=True)\<close>, and keep nothing of the answer
  when they return. \<^verbatim>\<open>get_module\<close> is \<^verbatim>\<open>_plotly_utils.optional_imports.get_module\<close>,
  which is not part of this module: here it is an argument, a function of the state
  \<open>'w\<close> of the process around the module (the packages that can be imported,
  \<^verbatim>\<open>sys.modules\<close>, whatever \<^verbatim>\<open>get_module\<close> itself remembers), which it may change.
\<close>

definition call_to_json_plotly ::
  "('w \<Rightarrow> orjson_module option \<times> 'w) \<Rightarrow> interpreter \<Rightarrow> 'w \<Rightarrow> pyobj \<Rightarrow> bool \<Rightarrow> string option
     \<Rightarrow> (py_error + string) \<times> 'w" where
  "call_to_json_plotly get_module env w plotly_object pretty engine =
     (case get_module w of
        (orjson, w') \<Rightarrow>
          (priv_to_json_plotly (env\<lparr>env_orjson := orjson\<rparr>) plotly_object pretty engine, w'))"

definition call_from_json_plotly ::
  "('w \<Rightarrow> orjson_module option \<times> 'w) \<Rightarrow> interpreter \<Rightarrow> 'w \<Rightarrow> json_text \<Rightarrow> string option
     \<Rightarrow> (py_error + pyobj) \<times> 'w" where
  "call_from_json_plotly get_module env w val engine =
     (case get_module w of
        (orjson, w') \<Rightarrow> (from_json_plotly (env\<lparr>env_orjson := orjson\<rparr>) val engine, w'))"

section \<open>Text that is read back\<close>

text \<open>
  The strict-JSON pass reads text that \<^verbatim>\<open>json.dumps\<close> wrote. The definitions of this
  section state what is read back:
  \<^item> \<open>float_repr_ok parse_float r\<close>: the text \<open>r\<close> is, as a whole, one float
    literal of the scanner, and \<open>parse_float\<close> reads it as the double of that name
    (for the builtin this is \<^verbatim>\<open>float(repr(x)) == x\<close>);
  \<^item> \<open>json_native parse_float v\<close>: \<open>v\<close> is built from None, bool, int, float, str,
    list, tuple and dict only, its finite floats are read back from their names and
    the keys of each dict are distinct;
  \<^item> \<open>strict_tree v\<close>: \<open>v\<close> with every non-finite float replaced by None, every
    tuple by a list, and the items of every dict in the order of their keys;
  \<^item> \<open>plain_separators opts\<close>: keys are sorted, the item separator is a comma and the
    key separator a colon, with or without a blank (both option sets of this module);
  \<^item> \<open>follow_ok ys\<close>: the text \<open>ys\<close> can follow a value (it is empty or starts with a
    comma, a closing bracket or white space);
  \<^item> \<open>reads_back parse_float x c\<close>: the scanner, given enough fuel, reads
    \<open>strict_tree x\<close> from the text \<open>c\<close> followed by any such \<open>ys\<close>, and leaves \<open>ys\<close>.
\<close>

definition follow_ok :: "string \<Rightarrow> bool" where
  "follow_ok ys =
     (case ys of [] \<Rightarrow> True | c # _ \<Rightarrow> c = CHR '','' \<or> c = CHR '']'' \<or> c = CHR ''}'' \<or> is_ws c)"

definition float_repr_ok :: "(string \<Rightarrow> pyfloat) \<Rightarrow> string \<Rightarrow> bool" where
  "float_repr_ok parse_float r = (match_number parse_float r = Some (PFloat (Finite r), []))"

fun nonfinite :: "pyfloat \<Rightarrow> bool" where
  "nonfinite (Finite r) = False"
| "nonfinite _ = True"

fun strict_tree :: "pyobj \<Rightarrow> pyobj" where
  "strict_tree (PFloat x) = (if nonfinite x then PNone else PFloat x)"
| "strict_tree (PList xs) = PList (map strict_tree xs)"
| "strict_tree (PTuple xs) = PList (map strict_tree xs)"
| "strict_tree (PDict kvs) =
     PDict (zip (map fst (sort_key fst kvs)) (map strict_tree (map snd (sort_key fst kvs))))"
| "strict_tree obj = obj"

fun json_native :: "(string \<Rightarrow> pyfloat) \<Rightarrow> pyobj \<Rightarrow> bool" where
  "json_native pf PNone = True"
| "json_native pf (PBool b) = True"
| "json_native pf (PInt i) = True"
| "json_native pf (PFloat x) = (case x of Finite r \<Rightarrow> float_repr_ok pf r | _ \<Rightarrow> True)"
| "json_native pf (PStr s) = True"
| "json_native pf (PList xs) = list_all (json_native pf) xs"
| "json_native pf (PTuple xs) = list_all (json_native pf) xs"
| "json_native pf (PDict kvs) =
     (distinct (map fst kvs) \<and> list_all (json_native pf) (map snd kvs))"
| "json_native pf _ = False"

definition plain_separators :: "json_opts \<Rightarrow> bool" where
  "plain_separators opts =
     (sort_keys opts \<and> item_separator opts = '','' \<and>
      (key_separator opts = '':'' \<or> key_separator opts = '': ''))"

definition value_start :: "string \<Rightarrow> bool" where
  "value_start s =
     (case s of
        [] \<Rightarrow> False
      | c # _ \<Rightarrow> \<not> is_ws c \<and> c \<noteq> CHR '']'' \<and> c \<noteq> CHR ''}'')"

definition reads_back :: "(string \<Rightarrow> pyfloat) \<Rightarrow> pyobj \<Rightarrow> string \<Rightarrow> bool" where
  "reads_back pf x c =
     (value_start c \<and>
      (\<forall>ys n. follow_ok ys \<longrightarrow> length c \<le> n \<longrightarrow>
         scan_once pf coerce_to_strict n (c @ ys) = Inr (strict_tree x, ys)))"

definition entry :: "string \<Rightarrow> string \<Rightarrow> string \<Rightarrow> string" where
  "entry keysep k chunk = encode_basestring_ascii k @ keysep @ chunk"

section \<open>An interpreter for the examples\<close>

text \<open>
  The builtin \<^verbatim>\<open>float\<close> on a number literal, for the examples: the literal denotes
  the number \<open>digits * 10 ^ exponent\<close>, exactly; \<^verbatim>\<open>float\<close> is the double nearest to
  it (ties to the even mantissa), an infinity from \<open>2 ^ 1024 - 2 ^ 970\<close> on. A double
  is \<open>m * 2 ^ k\<close> with \<open>m < 2 ^ 53\<close> and \<open>- 1074 \<le> k \<le> 971\<close>. Its name is what
  \<^verbatim>\<open>float.__repr__\<close> prints: the shortest digit string that \<^verbatim>\<open>float\<close> reads as the
  same double (the nearest to it of that length), written with an exponent when the
  decimal point is more than 16 places right or more than 3 places left of the first
  digit.
\<close>

definition literal_number :: "string \<Rightarrow> bool \<times> nat \<times> int" where
  "literal_number s =
     (case lex_integer s of
        None \<Rightarrow> (False, 0, 0)
      | Some (integer, s2) \<Rightarrow>
          (let (frac, s3) = lex_frac s2;
               (expo, rest) = lex_exp s3;
               negative = (take 1 integer = ''-'');
               idigits = (if negative then drop 1 integer else integer);
               fdigits = drop 1 frac;
               edigits = drop 1 expo;
               e = (if take 1 edigits = ''-'' then - int (nat_of_digits (drop 1 edigits))
                    else if take 1 edigits = ''+'' then int (nat_of_digits (drop 1 edigits))
                    else int (nat_of_digits edigits))
           in (negative, nat_of_digits (idigits @ fdigits), e - int (length fdigits))))"

definition round_half_even :: "nat \<Rightarrow> nat \<Rightarrow> nat" where
  "round_half_even n d =
     (let q = n div d; r = n mod d
      in if 2 * r < d then q else if d < 2 * r then q + 1 else if even q then q else q + 1)"

fun bit_length :: "nat \<Rightarrow> nat" where
  "bit_length n = (if n = 0 then 0 else Suc (bit_length (n div 2)))"

declare bit_length.simps [simp del]

definition nearest_double :: "nat \<Rightarrow> nat \<Rightarrow> (nat \<times> int) option" where
  "nearest_double n d =
     (let k0 = int (bit_length n) - int (bit_length d) - 53;
          below = (if k0 < 0 then (n * 2 ^ nat (- k0)) div d else n div (d * 2 ^ nat k0));
          k1 = max (if 2 ^ 53 \<le> below then k0 + 1 else k0) (- 1074);
          m = (if k1 < 0 then round_half_even (n * 2 ^ nat (- k1)) d
               else round_half_even n (d * 2 ^ nat k1));
          k = (if m = 2 ^ 53 then k1 + 1 else k1)
      in if 971 < k then None else Some (if m = 2 ^ 53 then 2 ^ 52 else m, k))"

definition decimal_double :: "nat \<Rightarrow> int \<Rightarrow> (nat \<times> int) option" where
  "decimal_double digits e =
     (if e < 0 then nearest_double digits (10 ^ nat (- e))
      else nearest_double (digits * 10 ^ nat e) 1)"

fun decimal_exponent :: "nat \<Rightarrow> nat \<Rightarrow> nat \<Rightarrow> int" where
  "decimal_exponent 0 n d = 0"
| "decimal_exponent (Suc fuel) n d =
     (if n < d then decimal_exponent fuel (10 * n) d - 1
      else if 10 * d \<le> n then decimal_exponent fuel n (10 * d) + 1
      else 0)"

definition nearest_digits :: "nat \<Rightarrow> int \<Rightarrow> int \<Rightarrow> nat option" where
  "nearest_digits m k p =
     (let n = (if k < 0 then m else m * 2 ^ nat k) * (if p < 0 then 10 ^ nat (- p) else 1);
          d = (if k < 0 then 2 ^ nat (- k) else 1) * (if p < 0 then 1 else 10 ^ nat p);
          lo = n div d;
          lo_ok = (decimal_double lo p = Some (m, k));
          hi_ok = (decimal_double (lo + 1) p = Some (m, k))
      in if lo_ok \<and> hi_ok then Some (round_half_even n d)
         else if lo_ok then Some lo
         else if hi_ok then Some (lo + 1)
         else None)"

fun shortest_digits :: "nat \<Rightarrow> nat \<Rightarrow> int \<Rightarrow> int \<Rightarrow> nat \<times> int" where
  "shortest_digits 0 m k p = (case nearest_digits m k p of Some ds \<Rightarrow> (ds, p) | None \<Rightarrow> (0, p))"
| "shortest_digits (Suc fuel) m k p =
     (case nearest_digits m k p of
        Some ds \<Rightarrow> (ds, p)
      | None \<Rightarrow> shortest_digits fuel m k (p - 1))"

fun strip_zeros :: "nat \<Rightarrow> nat \<Rightarrow> int \<Rightarrow> nat \<times> int" where
  "strip_zeros 0 ds p = (ds, p)"
| "strip_zeros (Suc fuel) ds p =
     (if 0 < ds \<and> ds mod 10 = 0 then strip_zeros fuel (ds div 10) (p + 1) else (ds, p))"

definition double_repr :: "nat \<Rightarrow> int \<Rightarrow> string" where
  "double_repr m k =
     (let e10 = decimal_exponent 400 (if k < 0 then m else m * 2 ^ nat k)
                  (if k < 0 then 2 ^ nat (- k) else 1);
          (ds, p) = (case shortest_digits 16 m k e10 of (ds, p) \<Rightarrow> strip_zeros 17 ds p);
          digits = nat_repr ds;
          decpt = int (length digits) + p
      in if decpt \<le> - 4 \<or> 16 < decpt then
           (let x = decpt - 1;
                mantissa = (if length digits = 1 then digits
                            else take 1 digits @ ''.'' @ drop 1 digits);
                xdigits = nat_repr (nat (abs x))
            in mantissa @ ''e'' @ (if x < 0 then ''-'' else ''+'')
                 @ (if length xdigits = 1 then ''0'' else []) @ xdigits)
         else if decpt \<le> 0 then ''0.'' @ replicate (nat (- decpt)) CHR ''0'' @ digits
         else if decpt < int (length digits) then
           take (nat decpt) digits @ ''.'' @ drop (nat decpt) digits
         else digits @ replicate (nat decpt - length digits) CHR ''0'' @ ''.0'')"

definition example_float :: "string \<Rightarrow> pyfloat" where
  "example_float s =
     (case literal_number s of
        (negative, digits, e) \<Rightarrow>
          (case decimal_double digits e of
             None \<Rightarrow> if negative then NegInf else PosInf
           | Some (m, k) \<Rightarrow>
               Finite ((if negative then ''-'' else [])
                       @ (if m = 0 then ''0.0'' else double_repr m k))))"

text \<open>
  The examples below need an interpreter to run in. Its orjson is a stand-in built from
  the model of the \<^verbatim>\<open>json\<close> module: it writes the trees \<^verbatim>\<open>json.dumps\<close> writes and
  raises \<^verbatim>\<open>TypeError\<close> on every other object. Sage is not loaded; numpy, pandas and
  PIL are.
\<close>

definition example_orjson :: orjson_module where
  "example_orjson =
     \<lparr>orjson_dumps = (\<lambda>opts obj. json_dumps (json_opts_of (OPT_INDENT_2 \<in> opts)) obj),
      orjson_loads = (\<lambda>val. case val of
                         StrArg s \<Rightarrow> json_loads example_float default_constant s
                       | BytesArg b \<Rightarrow> json_loads example_float default_constant b
                       | OtherArg _ \<Rightarrow> Inl TypeError)\<rparr>"

definition example_env :: "bool \<Rightarrow> interpreter" where
  "example_env with_orjson =
     \<lparr>env_orjson = (if with_orjson then Some example_orjson else None),
      env_modules = \<lparr>mod_sage_all = None, mod_np = True, mod_pd = True, mod_image = True\<rparr>,
      env_float = example_float,
      env_config = init_config\<rparr>"

text \<open>
  A process for the examples: whether \<^verbatim>\<open>import orjson\<close> would succeed now, whether
  orjson is in \<^verbatim>\<open>sys.modules\<close>, and whether an import of it has failed before. Its
  \<^verbatim>\<open>get_module\<close> answers from \<^verbatim>\<open>sys.modules\<close> when the module is there, does not
  try again after an import that failed, and imports otherwise.
\<close>

record example_process =
  importable :: bool
  in_sys_modules :: bool
  not_importable :: bool

definition example_get_module :: "example_process \<Rightarrow> orjson_module option \<times> example_process" where
  "example_get_module w =
     (if in_sys_modules w then (Some example_orjson, w)
      else if not_importable w then (None, w)
      else if importable w then (Some example_orjson, w\<lparr>in_sys_modules := True\<rparr>)
      else (None, w\<lparr>not_importable := True\<rparr>))"

section \<open>Properties of the configuration\<close>

lemma reachable_valid: "reachable cfg \<Longrightarrow> default_engine cfg \<in> set valid_engines"
  by (induction rule: reachable.induct)
     (auto simp: init_config_def valid_engines_def set_default_engine_def validate_orjson_def
           split: if_splits sum.splits)

text \<open>
  Claim C10. The default engine of the configuration object is always one of the four
  valid names: it starts as \<open>''auto''\<close>; in every state reachable through the setter it
  is a valid name; assigning a name that is not valid raises and leaves the object as it
  was; assigning \<open>''orjson''\<close> while the package is missing raises and leaves the object
  as it was; whenever the setter raises the object is unchanged; and an assignment that
  passes both checks stores the name.
\<close>

theorem default_engine_invariant:
  "default_engine init_config = ''auto''
   \<and> (reachable cfg \<longrightarrow> default_engine cfg \<in> set valid_engines)
   \<and> (val \<notin> set valid_engines \<longrightarrow>
        set_default_engine orjson val cfg = (Some (UnsupportedDefault val), cfg))
   \<and> set_default_engine False ''orjson'' cfg = (Some OrjsonMissing, cfg)
   \<and> (fst (set_default_engine orjson val cfg) \<noteq> None \<longrightarrow>
        snd (set_default_engine orjson val cfg) = cfg)
   \<and> (val \<in> set valid_engines \<and> (val = ''orjson'' \<longrightarrow> orjson) \<longrightarrow>
        set_default_engine orjson val cfg = (None, cfg\<lparr>default_engine := val\<rparr>))"
  using reachable_valid [of cfg]
  by (auto simp: init_config_def valid_engines_def set_default_engine_def validate_orjson_def
           split: if_splits sum.splits)

theorem default_engine_invariant_witness:
  "reachable (snd (set_default_engine True ''orjson'' init_config))
   \<and> default_engine (snd (set_default_engine True ''orjson'' init_config)) \<in> set valid_engines
   \<and> default_engine (snd (set_default_engine True ''orjson'' init_config)) = ''orjson''
   \<and> ''bogus'' \<notin> set valid_engines
   \<and> set_default_engine True ''bogus'' (snd (set_default_engine True ''orjson'' init_config))
       = (Some (UnsupportedDefault ''bogus''), snd (set_default_engine True ''orjson'' init_config))
   \<and> set_default_engine False ''orjson'' init_config = (Some OrjsonMissing, init_config)
   \<and> set_default_engine False ''legacy'' init_config = (None, init_config\<lparr>default_engine := ''legacy''\<rparr>)"
proof -
  let ?c = "snd (set_default_engine True ''orjson'' init_config)"
  have r: "reachable ?c" by (rule reach_set [OF reach_init])
  have b: "''bogus'' \<notin> set valid_engines" by (simp add: valid_engines_def)
  have l: "''legacy'' \<in> set valid_engines \<and> (''legacy'' = ''orjson'' \<longrightarrow> False)"
    by (simp add: valid_engines_def)
  have c: "default_engine ?c = ''orjson''"
    by (simp add: set_default_engine_def valid_engines_def validate_orjson_def)
  from default_engine_invariant [of ?c "''bogus''" True] r b
  have 1: "default_engine ?c \<in> set valid_engines"
    and 2: "set_default_engine True ''bogus'' ?c = (Some (UnsupportedDefault ''bogus''), ?c)"
    by blast+
  from default_engine_invariant [of init_config "''legacy''" False] l
  have 3: "set_default_engine False ''orjson'' init_config = (Some OrjsonMissing, init_config)"
    and 4: "set_default_engine False ''legacy'' init_config = (None, init_config\<lparr>default_engine := ''legacy''\<rparr>)"
    by blast+
  from r 1 c b 2 3 4 show ?thesis by blast
qed

text \<open>
  Claim C3. The claim says that \<^verbatim>\<open>clean_to_json_compatible\<close> never raises, also
  when the \<^verbatim>\<open>modules\<close> keyword is left out. The code reads
  \<^verbatim>\<open>modules = kwargs.get("modules", {})\<close> and then \<^verbatim>\<open>modules["sage_all"]\<close>: with
  the keyword left out, every object that is neither a scalar nor a list, tuple or dict
  (None already) raises \<^verbatim>\<open>KeyError\<close>, whatever the two flags are, and so does a
  dict that holds one.
\<close>

theorem clean_default_modules_raises:
  "clean_to_json_compatible numpy_allowed datetime_allowed None PNone = Inl (KeyError ''sage_all'')
   \<and> clean_to_json_compatible numpy_allowed datetime_allowed None (POpaque n) = Inl (KeyError ''sage_all'')
   \<and> clean_to_json_compatible numpy_allowed datetime_allowed None (PDict [(''a'', PNone)])
       = Inl (KeyError ''sage_all'')"
  by (simp add: clean_to_json_compatible.simps)

section \<open>Engine selection\<close>

text \<open>
  Claim C5. An engine name outside \<open>legacy\<close>, \<open>json\<close>, \<open>orjson\<close>, \<open>auto\<close> makes
  encode fail with "Invalid json engine", whatever the object and the interpreter, and
  makes decode of a str or of bytes fail the same way (decode checks the type of its
  argument first, so an argument that is neither fails with the error of that check);
  each of the four names passes the check and is resolved to one of the three engines.
\<close>

theorem invalid_engine_rejected:
  "(engine \<notin> set valid_engines \<longrightarrow>
      priv_to_json_plotly env obj pretty (Some engine) = Inl (InvalidEngine engine)
      \<and> from_json_plotly env (StrArg s) (Some engine) = Inl (InvalidEngine engine)
      \<and> from_json_plotly env (BytesArg s) (Some engine) = Inl (InvalidEngine engine))
   \<and> (engine \<in> set valid_engines \<longrightarrow>
      (\<exists>e. determine_engine (env_orjson env \<noteq> None) (env_config env) (Some engine) = Inr e
           \<and> e \<in> set [''orjson'', ''json'', ''legacy'']))"
  by (auto simp: priv_to_json_plotly_def from_json_plotly_def determine_engine_def valid_engines_def)

theorem invalid_engine_rejected_witness:
  "''bogus'' \<notin> set valid_engines
   \<and> priv_to_json_plotly (example_env True) (PInt 1) False (Some ''bogus'') = Inl (InvalidEngine ''bogus'')
   \<and> from_json_plotly (example_env True) (StrArg ''1'') (Some ''bogus'') = Inl (InvalidEngine ''bogus'')
   \<and> ''legacy'' \<in> set valid_engines
   \<and> determine_engine (env_orjson (example_env True) \<noteq> None) (env_config (example_env True))
        (Some ''legacy'') = Inr ''legacy''"
proof -
  have b: "''bogus'' \<notin> set valid_engines" and l: "''legacy'' \<in> set valid_engines"
    by (simp_all add: valid_engines_def)
  from invalid_engine_rejected [of "''bogus''" "example_env True" "PInt 1" False "''1''"] b
  have 1: "priv_to_json_plotly (example_env True) (PInt 1) False (Some ''bogus'') = Inl (InvalidEngine ''bogus'')"
    and 2: "from_json_plotly (example_env True) (StrArg ''1'') (Some ''bogus'') = Inl (InvalidEngine ''bogus'')"
    by blast+
  have 3: "determine_engine (env_orjson (example_env True) \<noteq> None) (env_config (example_env True))
        (Some ''legacy'') = Inr ''legacy''"
    by (simp add: determine_engine_def)
  from b l 1 2 3 show ?thesis by blast
qed

text \<open>
  Claim C6, as amended. With the name \<open>auto\<close> (given as the argument, or found as the
  default when no argument is given) the engine is \<open>orjson\<close> exactly when
  \<^verbatim>\<open>get_module("orjson", should_load=True)\<close> gave the module in this call, and \<open>json\<close>
  exactly when it gave None: encode then is the \<open>orjson\<close> branch with that module, or
  the \<open>json\<close> branch, and decode is \<^verbatim>\<open>orjson.loads\<close> of that module, or
  \<^verbatim>\<open>json.loads\<close>. The lookup is made by every call, in the state of the process that
  the call finds, and the module keeps nothing of it: of two calls, with anything
  happening to the process in between, each has the engine of its own lookup. Whether
  a package that has become importable is found is therefore what \<^verbatim>\<open>get_module\<close>
  answers, and nothing more.
\<close>

theorem auto_engine_resolution:
  "(determine_engine found cfg (Some ''auto'') = Inr ''orjson'' \<longleftrightarrow> found)
   \<and> (determine_engine found cfg (Some ''auto'') = Inr ''json'' \<longleftrightarrow> \<not> found)
   \<and> (default_engine cfg = ''auto'' \<longrightarrow>
        determine_engine found cfg None = determine_engine found cfg (Some ''auto''))
   \<and> (env_orjson env = Some oj \<longrightarrow>
        priv_to_json_plotly env obj pretty (Some ''auto'')
          = (case orjson_dumps oj (orjson_opts_of pretty)
                    (case to_plotly_json obj of Some v \<Rightarrow> v | None \<Rightarrow> obj) of
               Inr text \<Rightarrow> Inr text
             | Inl e \<Rightarrow>
                 if e \<noteq> TypeError then Inl e
                 else
                   (case clean_to_json_compatible True True (Some (env_modules env))
                           (case to_plotly_json obj of Some v \<Rightarrow> v | None \<Rightarrow> obj) of
                      Inl e \<Rightarrow> Inl e
                    | Inr cleaned \<Rightarrow> orjson_dumps oj (orjson_opts_of pretty) cleaned))
        \<and> from_json_plotly env (StrArg s) (Some ''auto'') = orjson_loads oj (StrArg s)
        \<and> from_json_plotly env (BytesArg s) (Some ''auto'') = orjson_loads oj (BytesArg s))
   \<and> (env_orjson env = None \<longrightarrow>
        priv_to_json_plotly env obj pretty (Some ''auto'')
          = (case clean_to_json_compatible False False (Some (env_modules env)) obj of
               Inl e \<Rightarrow> Inl e
             | Inr cleaned \<Rightarrow>
                 (case json_dumps (json_opts_of pretty) cleaned of
                    Inl e \<Rightarrow> Inl e
                  | Inr encoded_o \<Rightarrow> strict_json (env_float env) (json_opts_of pretty) encoded_o))
        \<and> from_json_plotly env (StrArg s) (Some ''auto'')
            = json_loads (env_float env) default_constant s
        \<and> from_json_plotly env (BytesArg s) (Some ''auto'')
            = (case utf8_decode s of
                 Inl e \<Rightarrow> Inl e
               | Inr t \<Rightarrow> json_loads (env_float env) default_constant t))
   \<and> (get_module w = (m1, w1) \<and> get_module (between w1) = (m2, w2) \<longrightarrow>
        call_to_json_plotly get_module env w obj pretty (Some ''auto'')
          = (priv_to_json_plotly (env\<lparr>env_orjson := m1\<rparr>) obj pretty (Some ''auto''), w1)
        \<and> call_to_json_plotly get_module env (between w1) obj pretty (Some ''auto'')
          = (priv_to_json_plotly (env\<lparr>env_orjson := m2\<rparr>) obj pretty (Some ''auto''), w2)
        \<and> call_from_json_plotly get_module env w val (Some ''auto'')
          = (from_json_plotly (env\<lparr>env_orjson := m1\<rparr>) val (Some ''auto''), w1)
        \<and> call_from_json_plotly get_module env (between w1) val (Some ''auto'')
          = (from_json_plotly (env\<lparr>env_orjson := m2\<rparr>) val (Some ''auto''), w2))"
proof (intro conjI impI)
  show "determine_engine found cfg (Some ''auto'') = Inr ''orjson'' \<longleftrightarrow> found"
    by (simp add: determine_engine_def)
  show "determine_engine found cfg (Some ''auto'') = Inr ''json'' \<longleftrightarrow> \<not> found"
    by (simp add: determine_engine_def)
  show "determine_engine found cfg None = determine_engine found cfg (Some ''auto'')"
    if "default_engine cfg = ''auto''"
    using that by (simp add: determine_engine_def)
next
  assume oj: "env_orjson env = Some oj"
  show "priv_to_json_plotly env obj pretty (Some ''auto'')
          = (case orjson_dumps oj (orjson_opts_of pretty)
                    (case to_plotly_json obj of Some v \<Rightarrow> v | None \<Rightarrow> obj) of
               Inr text \<Rightarrow> Inr text
             | Inl e \<Rightarrow>
                 if e \<noteq> TypeError then Inl e
                 else
                   (case clean_to_json_compatible True True (Some (env_modules env))
                           (case to_plotly_json obj of Some v \<Rightarrow> v | None \<Rightarrow> obj) of
                      Inl e \<Rightarrow> Inl e
                    | Inr cleaned \<Rightarrow> orjson_dumps oj (orjson_opts_of pretty) cleaned))"
    using oj
    by (simp add: priv_to_json_plotly_def determine_engine_def validate_orjson_def Let_def
        split: sum.splits)
  show "from_json_plotly env (StrArg s) (Some ''auto'') = orjson_loads oj (StrArg s)"
    using oj by (simp add: from_json_plotly_def determine_engine_def validate_orjson_def)
  show "from_json_plotly env (BytesArg s) (Some ''auto'') = orjson_loads oj (BytesArg s)"
    using oj by (simp add: from_json_plotly_def determine_engine_def validate_orjson_def)
next
  assume no: "env_orjson env = None"
  show "priv_to_json_plotly env obj pretty (Some ''auto'')
          = (case clean_to_json_compatible False False (Some (env_modules env)) obj of
               Inl e \<Rightarrow> Inl e
             | Inr cleaned \<Rightarrow>
                 (case json_dumps (json_opts_of pretty) cleaned of
                    Inl e \<Rightarrow> Inl e
                  | Inr encoded_o \<Rightarrow> strict_json (env_float env) (json_opts_of pretty) encoded_o))"
    using no by (simp add: priv_to_json_plotly_def determine_engine_def Let_def)
  show "from_json_plotly env (StrArg s) (Some ''auto'')
            = json_loads (env_float env) default_constant s"
    using no by (simp add: from_json_plotly_def determine_engine_def)
  show "from_json_plotly env (BytesArg s) (Some ''auto'')
            = (case utf8_decode s of
                 Inl e \<Rightarrow> Inl e
               | Inr t \<Rightarrow> json_loads (env_float env) default_constant t)"
    using no by (simp add: from_json_plotly_def determine_engine_def)
next
  assume g: "get_module w = (m1, w1) \<and> get_module (between w1) = (m2, w2)"
  show "call_to_json_plotly get_module env w obj pretty (Some ''auto'')
          = (priv_to_json_plotly (env\<lparr>env_orjson := m1\<rparr>) obj pretty (Some ''auto''), w1)"
    using g by (simp add: call_to_json_plotly_def)
  show "call_to_json_plotly get_module env (between w1) obj pretty (Some ''auto'')
          = (priv_to_json_plotly (env\<lparr>env_orjson := m2\<rparr>) obj pretty (Some ''auto''), w2)"
    using g by (simp add: call_to_json_plotly_def)
  show "call_from_json_plotly get_module env w val (Some ''auto'')
          = (from_json_plotly (env\<lparr>env_orjson := m1\<rparr>) val (Some ''auto''), w1)"
    using g by (simp add: call_from_json_plotly_def)
  show "call_from_json_plotly get_module env (between w1) val (Some ''auto'')
          = (from_json_plotly (env\<lparr>env_orjson := m2\<rparr>) val (Some ''auto''), w2)"
    using g by (simp add: call_from_json_plotly_def)
qed

theorem auto_engine_resolution_witness:
  "determine_engine True init_config (Some ''auto'') = Inr ''orjson''
   \<and> determine_engine False init_config (Some ''auto'') = Inr ''json''
   \<and> default_engine init_config = ''auto''
   \<and> determine_engine True init_config None = Inr ''orjson''
   \<and> env_orjson (example_env True) = Some example_orjson
   \<and> from_json_plotly (example_env True) (StrArg ''[1.50]'') (Some ''auto'')
       = orjson_loads example_orjson (StrArg ''[1.50]'')
   \<and> env_orjson (example_env False) = None
   \<and> from_json_plotly (example_env False) (StrArg ''[1, 2]'') (Some ''auto'')
       = Inr (PList [PInt 1, PInt 2])
   \<and> example_get_module \<lparr>importable = False, in_sys_modules = False, not_importable = False\<rparr>
       = (None, \<lparr>importable = False, in_sys_modules = False, not_importable = True\<rparr>)
   \<and> example_get_module \<lparr>importable = False, in_sys_modules = True, not_importable = True\<rparr>
       = (Some example_orjson, \<lparr>importable = False, in_sys_modules = True, not_importable = True\<rparr>)
   \<and> call_to_json_plotly example_get_module (example_env False)
        \<lparr>importable = False, in_sys_modules = False, not_importable = False\<rparr>
        (PDict [(''b'', PFloat NaN)]) False (Some ''auto'')
       = (priv_to_json_plotly (example_env False) (PDict [(''b'', PFloat NaN)]) False (Some ''json''),
          \<lparr>importable = False, in_sys_modules = False, not_importable = True\<rparr>)
   \<and> call_to_json_plotly example_get_module (example_env False)
        \<lparr>importable = False, in_sys_modules = True, not_importable = True\<rparr>
        (PDict [(''b'', PFloat NaN)]) False (Some ''auto'')
       = (priv_to_json_plotly (example_env True) (PDict [(''b'', PFloat NaN)]) False (Some ''orjson''),
          \<lparr>importable = False, in_sys_modules = True, not_importable = True\<rparr>)"
proof -
  let ?w0 = "\<lparr>importable = False, in_sys_modules = False, not_importable = False\<rparr>"
  let ?w1 = "\<lparr>importable = False, in_sys_modules = False, not_importable = True\<rparr>"
  let ?w2 = "\<lparr>importable = False, in_sys_modules = True, not_importable = True\<rparr>"
  let ?b = "PDict [(''b'', PFloat NaN)]"
  let ?between = "\<lambda>w. w\<lparr>in_sys_modules := True\<rparr>"
  note r = auto_engine_resolution [where cfg = init_config and obj = ?b and pretty = False
      and get_module = example_get_module and w = ?w0 and ?m1.0 = None and ?w1.0 = ?w1
      and between = ?between and ?m2.0 = "Some example_orjson" and ?w2.0 = ?w2]
  have d: "default_engine init_config = ''auto''" by (simp add: init_config_def)
  have t: "env_orjson (example_env True) = Some example_orjson"
    and f: "env_orjson (example_env False) = None"
    by (simp_all add: example_env_def)
  have g0: "example_get_module ?w0 = (None, ?w1)"
    and g1: "example_get_module ?w2 = (Some example_orjson, ?w2)"
    by (simp_all add: example_get_module_def)
  have b: "?between ?w1 = ?w2" by simp
  have e0: "(example_env False)\<lparr>env_orjson := None\<rparr> = example_env False"
    and e1: "(example_env False)\<lparr>env_orjson := Some example_orjson\<rparr> = example_env True"
    by (simp_all add: example_env_def)
  from r [where found = True] have 1: "determine_engine True init_config (Some ''auto'') = Inr ''orjson''"
    by blast
  from r [where found = False] have 2: "determine_engine False init_config (Some ''auto'') = Inr ''json''"
    by blast
  from r [where found = True] d 1 have 3: "determine_engine True init_config None = Inr ''orjson''"
    by simp
  from r [where env = "example_env True" and oj = example_orjson and s = "''[1.50]''"] t
  have 4: "from_json_plotly (example_env True) (StrArg ''[1.50]'') (Some ''auto'')
       = orjson_loads example_orjson (StrArg ''[1.50]'')"
    and 5: "priv_to_json_plotly (example_env True) ?b False (Some ''auto'')
       = priv_to_json_plotly (example_env True) ?b False (Some ''orjson'')"
    by (simp_all add: priv_to_json_plotly_def determine_engine_def validate_orjson_def Let_def)
  have l: "json_loads example_float default_constant ''[1, 2]'' = Inr (PList [PInt 1, PInt 2])"
    by code_simp
  from r [where env = "example_env False" and s = "''[1, 2]''"] f
  have 6: "from_json_plotly (example_env False) (StrArg ''[1, 2]'') (Some ''auto'')
       = Inr (PList [PInt 1, PInt 2])"
    and 7: "priv_to_json_plotly (example_env False) ?b False (Some ''auto'')
       = priv_to_json_plotly (example_env False) ?b False (Some ''json'')"
    by (simp_all add: l example_env_def priv_to_json_plotly_def determine_engine_def Let_def)
  from r [where env = "example_env False"] g0 g1 b
  have 8: "call_to_json_plotly example_get_module (example_env False) ?w0 ?b False (Some ''auto'')
       = (priv_to_json_plotly (example_env False) ?b False (Some ''auto''), ?w1)"
    and 9: "call_to_json_plotly example_get_module (example_env False) ?w2 ?b False (Some ''auto'')
       = (priv_to_json_plotly (example_env True) ?b False (Some ''auto''), ?w2)"
    by (simp_all only: e0 e1)
  from d 1 2 3 t 4 f 6 g0 g1 8 9 5 7 show ?thesis by simp
qed

text \<open>
  Claim C6 as stated has a change of availability observed on the next call. With a
  \<^verbatim>\<open>get_module\<close> that does not try again a name whose import has failed, a first call
  made while orjson cannot be imported resolves \<open>auto\<close> to \<open>json\<close> and leaves that
  failure recorded; when orjson has become importable, the next call still gets None
  from \<^verbatim>\<open>get_module\<close> and resolves \<open>auto\<close> to \<open>json\<close> again.
\<close>

theorem auto_change_not_observed_counterexample:
  "call_from_json_plotly example_get_module (example_env False)
      \<lparr>importable = False, in_sys_modules = False, not_importable = False\<rparr>
      (StrArg ''[1]'') (Some ''auto'')
     = (Inr (PList [PInt 1]), \<lparr>importable = False, in_sys_modules = False, not_importable = True\<rparr>)
   \<and> importable (\<lparr>importable = False, in_sys_modules = False, not_importable = True\<rparr>
                   \<lparr>importable := True\<rparr>)
   \<and> example_get_module (\<lparr>importable = False, in_sys_modules = False, not_importable = True\<rparr>
                           \<lparr>importable := True\<rparr>)
     = (None, \<lparr>importable = True, in_sys_modules = False, not_importable = True\<rparr>)
   \<and> determine_engine
        (fst (example_get_module (\<lparr>importable = False, in_sys_modules = False, not_importable = True\<rparr>
                                    \<lparr>importable := True\<rparr>)) \<noteq> None)
        init_config (Some ''auto'')
     = Inr ''json''
   \<and> call_to_json_plotly example_get_module (example_env False)
        (\<lparr>importable = False, in_sys_modules = False, not_importable = True\<rparr>\<lparr>importable := True\<rparr>)
        (PDict [(''b'', PInt 1)]) False (Some ''auto'')
     = (Inr (''{'' @ [CHR 0x22] @ ''b'' @ [CHR 0x22] @ '':1}''),
        \<lparr>importable = True, in_sys_modules = False, not_importable = True\<rparr>)"
proof -
  let ?w0 = "\<lparr>importable = False, in_sys_modules = False, not_importable = False\<rparr>"
  let ?w1 = "\<lparr>importable = False, in_sys_modules = False, not_importable = True\<rparr>"
  let ?w2 = "\<lparr>importable = True, in_sys_modules = False, not_importable = True\<rparr>"
  have g0: "example_get_module ?w0 = (None, ?w1)"
    and g1: "example_get_module (?w1\<lparr>importable := True\<rparr>) = (None, ?w2)"
    by (simp_all add: example_get_module_def)
  have e: "(example_env False)\<lparr>env_orjson := None\<rparr> = example_env False"
    by (simp add: example_env_def)
  have d: "from_json_plotly (example_env False) (StrArg ''[1]'') (Some ''auto'') = Inr (PList [PInt 1])"
    by code_simp
  have t: "priv_to_json_plotly (example_env False) (PDict [(''b'', PInt 1)]) False (Some ''auto'')
      = Inr (''{'' @ [CHR 0x22] @ ''b'' @ [CHR 0x22] @ '':1}'')"
    by code_simp
  have 1: "call_from_json_plotly example_get_module (example_env False) ?w0 (StrArg ''[1]'')
      (Some ''auto'') = (Inr (PList [PInt 1]), ?w1)"
    by (simp only: call_from_json_plotly_def g0 e d prod.case)
  have 2: "importable (?w1\<lparr>importable := True\<rparr>)" by simp
  have 3: "determine_engine (fst (example_get_module (?w1\<lparr>importable := True\<rparr>)) \<noteq> None)
      init_config (Some ''auto'') = Inr ''json''"
    by (simp add: example_get_module_def determine_engine_def)
  have 4: "call_to_json_plotly example_get_module (example_env False) (?w1\<lparr>importable := True\<rparr>)
      (PDict [(''b'', PInt 1)]) False (Some ''auto'')
      = (Inr (''{'' @ [CHR 0x22] @ ''b'' @ [CHR 0x22] @ '':1}''), ?w2)"
    by (simp only: call_to_json_plotly_def g1 e t prod.case)
  from 1 2 g1 3 4 show ?thesis by blast
qed

section \<open>Canonicalization\<close>

lemma object_rules_tolist:
  "rules_before_tolist na da m obj = Fallthrough obj' \<Longrightarrow> tolist obj' = Some lst \<Longrightarrow>
   object_rules na da m obj = Return (Inr lst)"
  by (simp add: object_rules_def tolist_rule_def)

lemma numeric_array_before_tolist:
  assumes "k \<in> set ''biuf''"
    and "sage_rule m (PNdArray k c xs ds) = Fallthrough (PNdArray k c xs ds)"
  shows "rules_before_tolist False da m (PNdArray k c xs ds) = Fallthrough (PNdArray k c xs ds)"
proof -
  have n: "numpy_rule False m (PNdArray k c xs ds) = Fallthrough (PNdArray k c xs ds)"
    using assms(1) by (auto simp: numpy_rule_def)
  have p: "pandas_rule False da m (PNdArray k c xs ds) = Fallthrough (PNdArray k c xs ds)"
    by (simp add: pandas_rule_def)
  have d: "datetime_rule da (PNdArray k c xs ds) = Fallthrough (PNdArray k c xs ds)"
    by (simp add: datetime_rule_def Let_def)
  show ?thesis by (simp add: rules_before_tolist_def assms(2) n p d)
qed

text \<open>
  Claim C8. An object that is not a scalar, whose view (after \<^verbatim>\<open>to_plotly_json\<close>, if
  it has one) is no list, tuple or dict, that falls through the Sage, numpy, pandas and
  datetime blocks and then has \<^verbatim>\<open>tolist()\<close>, is canonicalized to what \<^verbatim>\<open>tolist()\<close>
  returns, as it is: nothing is applied to the elements. In particular an array of kind
  b, i, u or f under \<^verbatim>\<open>numpy_allowed=False\<close> becomes its \<^verbatim>\<open>tolist()\<close>, whether numpy
  is among the modules or not, as long as Sage (if loaded) does not take the array for a
  member of RR or ZZ.
\<close>

theorem tolist_verbatim:
  "(\<not> is_scalar obj0
      \<and> obj = (case to_plotly_json obj0 of Some v \<Rightarrow> v | None \<Rightarrow> obj0)
      \<and> elements obj = None \<and> dict_items obj = None
      \<and> rules_before_tolist numpy_allowed datetime_allowed m obj = Fallthrough obj'
      \<and> tolist obj' = Some lst
    \<longrightarrow> clean_to_json_compatible numpy_allowed datetime_allowed (Some m) obj0 = Inr lst)
   \<and> (k \<in> set ''biuf''
      \<and> sage_rule m (PNdArray k c xs ds) = Fallthrough (PNdArray k c xs ds)
    \<longrightarrow> clean_to_json_compatible False datetime_allowed (Some m) (PNdArray k c xs ds) = Inr xs)"
proof (intro conjI impI)
  assume a: "\<not> is_scalar obj0
      \<and> obj = (case to_plotly_json obj0 of Some v \<Rightarrow> v | None \<Rightarrow> obj0)
      \<and> elements obj = None \<and> dict_items obj = None
      \<and> rules_before_tolist numpy_allowed datetime_allowed m obj = Fallthrough obj'
      \<and> tolist obj' = Some lst"
  then have "object_rules numpy_allowed datetime_allowed m obj = Return (Inr lst)"
    by (auto intro: object_rules_tolist)
  with a show "clean_to_json_compatible numpy_allowed datetime_allowed (Some m) obj0 = Inr lst"
    by (subst clean_to_json_compatible.simps) (auto simp: Let_def)
next
  assume b: "k \<in> set ''biuf''
      \<and> sage_rule m (PNdArray k c xs ds) = Fallthrough (PNdArray k c xs ds)"
  then have "rules_before_tolist False datetime_allowed m (PNdArray k c xs ds)
      = Fallthrough (PNdArray k c xs ds)"
    by (auto intro: numeric_array_before_tolist)
  then have "object_rules False datetime_allowed m (PNdArray k c xs ds) = Return (Inr xs)"
    by (rule object_rules_tolist) simp
  then show "clean_to_json_compatible False datetime_allowed (Some m) (PNdArray k c xs ds) = Inr xs"
    by (subst clean_to_json_compatible.simps) (simp add: Let_def)
qed

theorem tolist_verbatim_witness:
  "\<not> is_scalar (PArrayLike (PList [PPlotly (PDict []), PTuple [PInt 1]]))
   \<and> rules_before_tolist True False (env_modules (example_env True))
        (PArrayLike (PList [PPlotly (PDict []), PTuple [PInt 1]]))
       = Fallthrough (PArrayLike (PList [PPlotly (PDict []), PTuple [PInt 1]]))
   \<and> clean_to_json_compatible True False (Some (env_modules (example_env True)))
        (PArrayLike (PList [PPlotly (PDict []), PTuple [PInt 1]]))
       = Inr (PList [PPlotly (PDict []), PTuple [PInt 1]])
   \<and> CHR ''i'' \<in> set ''biuf''
   \<and> sage_rule (env_modules (example_env True)) (PNdArray CHR ''i'' (PArrayLike (PList [PInt 1, PInt 2, PInt 3]))
          (PList [PInt 1, PInt 2, PInt 3]) PNone)
       = Fallthrough (PNdArray CHR ''i'' (PArrayLike (PList [PInt 1, PInt 2, PInt 3]))
          (PList [PInt 1, PInt 2, PInt 3]) PNone)
   \<and> clean_to_json_compatible False False (Some (env_modules (example_env True)))
        (PNdArray CHR ''i'' (PArrayLike (PList [PInt 1, PInt 2, PInt 3]))
          (PList [PInt 1, PInt 2, PInt 3]) PNone)
       = Inr (PList [PInt 1, PInt 2, PInt 3])"
proof -
  let ?a = "PArrayLike (PList [PPlotly (PDict []), PTuple [PInt 1]])"
  let ?m = "env_modules (example_env True)"
  let ?n = "PNdArray CHR ''i'' (PArrayLike (PList [PInt 1, PInt 2, PInt 3]))
          (PList [PInt 1, PInt 2, PInt 3]) PNone"
  have 1: "\<not> is_scalar ?a" by simp
  have 2: "rules_before_tolist True False ?m ?a = Fallthrough ?a"
    by (simp add: rules_before_tolist_def example_env_def sage_rule_def numpy_rule_def
        pandas_rule_def datetime_rule_def)
  have 3: "CHR ''i'' \<in> set ''biuf''" by simp
  have 4: "sage_rule ?m ?n = Fallthrough ?n" by (simp add: sage_rule_def example_env_def)
  from tolist_verbatim [of ?a ?a True False ?m ?a "PList [PPlotly (PDict []), PTuple [PInt 1]]"
      "CHR ''i''" "PArrayLike (PList [PInt 1, PInt 2, PInt 3])" "PList [PInt 1, PInt 2, PInt 3]" PNone]
      1 2 3 4
  have 5: "clean_to_json_compatible True False (Some ?m) ?a = Inr (PList [PPlotly (PDict []), PTuple [PInt 1]])"
    and 6: "clean_to_json_compatible False False (Some ?m) ?n = Inr (PList [PInt 1, PInt 2, PInt 3])"
    by simp_all
  from 1 2 3 4 5 6 show ?thesis by blast
qed

section \<open>The engines\<close>

text \<open>
  Claim C4, as amended. With the \<open>orjson\<close> engine and orjson loaded, the object is first
  replaced by its \<^verbatim>\<open>to_plotly_json()\<close> view when it has that method (an object
  without it stays as it is). orjson is then tried on that object: when it succeeds its
  text is the result and nothing is canonicalized; when it raises \<^verbatim>\<open>TypeError\<close> the
  result is orjson's on \<^verbatim>\<open>clean_to_json_compatible\<close> of that object with
  \<^verbatim>\<open>numpy_allowed=True, datetime_allowed=True\<close>; any other exception of orjson is
  the result.
\<close>

theorem orjson_unwrap_then_direct:
  "env_orjson env = Some oj
   \<and> o1 = (case to_plotly_json obj of Some v \<Rightarrow> v | None \<Rightarrow> obj)
   \<longrightarrow>
     (to_plotly_json obj = None \<longrightarrow> o1 = obj)
     \<and> (\<forall>s. orjson_dumps oj (orjson_opts_of pretty) o1 = Inr s \<longrightarrow>
           priv_to_json_plotly env obj pretty (Some ''orjson'') = Inr s)
     \<and> (orjson_dumps oj (orjson_opts_of pretty) o1 = Inl TypeError \<longrightarrow>
           priv_to_json_plotly env obj pretty (Some ''orjson'')
             = (case clean_to_json_compatible True True (Some (env_modules env)) o1 of
                  Inl e \<Rightarrow> Inl e
                | Inr cleaned \<Rightarrow> orjson_dumps oj (orjson_opts_of pretty) cleaned))
     \<and> (\<forall>e. orjson_dumps oj (orjson_opts_of pretty) o1 = Inl e \<and> e \<noteq> TypeError \<longrightarrow>
           priv_to_json_plotly env obj pretty (Some ''orjson'') = Inl e)"
  by (auto simp: priv_to_json_plotly_def determine_engine_def validate_orjson_def Let_def
           split: option.splits sum.splits)

theorem orjson_unwrap_then_direct_witness:
  "env_orjson (example_env True) = Some example_orjson
   \<and> to_plotly_json (PPlotly (PDict [(''x'', PInt 5)])) = Some (PDict [(''x'', PInt 5)])
   \<and> orjson_dumps example_orjson (orjson_opts_of False) (PDict [(''x'', PInt 5)])
       = Inr (''{'' @ [CHR 0x22] @ ''x'' @ [CHR 0x22] @ '':5}'')
   \<and> priv_to_json_plotly (example_env True) (PPlotly (PDict [(''x'', PInt 5)])) False (Some ''orjson'')
       = Inr (''{'' @ [CHR 0x22] @ ''x'' @ [CHR 0x22] @ '':5}'')
   \<and> orjson_dumps example_orjson (orjson_opts_of False) (PDict [(''x'', PDecimal (Finite ''1.5''))])
       = Inl TypeError
   \<and> priv_to_json_plotly (example_env True) (PDict [(''x'', PDecimal (Finite ''1.5''))]) False (Some ''orjson'')
       = Inr (''{'' @ [CHR 0x22] @ ''x'' @ [CHR 0x22] @ '':1.5}'')"
proof -
  let ?d = "PDict [(''x'', PInt 5)]"
  let ?e = "PDict [(''x'', PDecimal (Finite ''1.5''))]"
  have 1: "env_orjson (example_env True) = Some example_orjson" by (simp add: example_env_def)
  have 2: "to_plotly_json (PPlotly ?d) = Some ?d" by simp
  have 3: "orjson_dumps example_orjson (orjson_opts_of False) ?d
       = Inr (''{'' @ [CHR 0x22] @ ''x'' @ [CHR 0x22] @ '':5}'')" by code_simp
  have 4: "orjson_dumps example_orjson (orjson_opts_of False) ?e = Inl TypeError" by code_simp
  have 5: "(case clean_to_json_compatible True True (Some (env_modules (example_env True))) ?e of
              Inl e \<Rightarrow> Inl e
            | Inr cleaned \<Rightarrow> orjson_dumps example_orjson (orjson_opts_of False) cleaned)
       = Inr (''{'' @ [CHR 0x22] @ ''x'' @ [CHR 0x22] @ '':1.5}'')" by code_simp
  from orjson_unwrap_then_direct [of "example_env True" example_orjson ?d "PPlotly ?d" False] 1 2 3
  have 6: "priv_to_json_plotly (example_env True) (PPlotly ?d) False (Some ''orjson'')
       = Inr (''{'' @ [CHR 0x22] @ ''x'' @ [CHR 0x22] @ '':5}'')" by simp
  from orjson_unwrap_then_direct [of "example_env True" example_orjson ?e ?e False] 1 4 5
  have 7: "priv_to_json_plotly (example_env True) ?e False (Some ''orjson'')
       = Inr (''{'' @ [CHR 0x22] @ ''x'' @ [CHR 0x22] @ '':1.5}'')" by simp
  from 1 2 3 4 6 7 show ?thesis by blast
qed

text \<open>
  Claim C4 as stated has the first attempt made on the raw item. For an object whose
  \<^verbatim>\<open>to_plotly_json()\<close> returns another object with that method, an orjson that
  rejects such objects raises on the raw item, and canonicalizing the raw item (one
  unwrapping, then the identity fallback) gives an object it rejects again; the code,
  which unwraps once before the attempt and once more when canonicalizing, returns the
  text of the inner dict.
\<close>

theorem orjson_raw_attempt_counterexample:
  "orjson_dumps example_orjson (orjson_opts_of False) (PPlotly (PPlotly (PDict [(''x'', PInt 5)])))
     = Inl TypeError
   \<and> (case clean_to_json_compatible True True (Some (env_modules (example_env True)))
             (PPlotly (PPlotly (PDict [(''x'', PInt 5)]))) of
         Inl e \<Rightarrow> Inl e
       | Inr cleaned \<Rightarrow> orjson_dumps example_orjson (orjson_opts_of False) cleaned)
     = Inl TypeError
   \<and> priv_to_json_plotly (example_env True) (PPlotly (PPlotly (PDict [(''x'', PInt 5)]))) False
       (Some ''orjson'')
     = Inr (''{'' @ [CHR 0x22] @ ''x'' @ [CHR 0x22] @ '':5}'')"
  by code_simp

text \<open>
  Claim C2. With the \<open>legacy\<close> engine the object is canonicalized with
  \<^verbatim>\<open>numpy_allowed=False, datetime_allowed=False\<close> and written with the options of the
  \<open>json\<close> engine (sorted keys, indent 2 or compact separators); when the text holds
  \<open>NaN\<close> or \<open>Infinity\<close> it is read back with each of these tokens replaced by None and
  written again with the same options (a text that cannot be read back is the error
  about separators). That is what the \<open>json\<close> engine returns for the same object. The
  encoder class, which does this for the \<open>legacy\<close> engine, is modelled from the
  specification.
\<close>

theorem legacy_same_as_standard:
  "priv_to_json_plotly env obj pretty (Some ''legacy'')
     = (case clean_to_json_compatible False False (Some (env_modules env)) obj of
          Inl e \<Rightarrow> Inl e
        | Inr cleaned \<Rightarrow>
            (case json_dumps (json_opts_of pretty) cleaned of
               Inl e \<Rightarrow> Inl e
             | Inr encoded_o \<Rightarrow>
                 if sublist ''NaN'' encoded_o \<or> sublist ''Infinity'' encoded_o then
                   (case json_loads (env_float env) coerce_to_strict encoded_o of
                      Inl e \<Rightarrow> if e = JSONDecodeError then Inl StrictEncodingFailed else Inl e
                    | Inr new_o \<Rightarrow> json_dumps (json_opts_of pretty) new_o)
                 else Inr encoded_o))
   \<and> priv_to_json_plotly env obj pretty (Some ''legacy'')
     = priv_to_json_plotly env obj pretty (Some ''json'')"
  by (simp add: priv_to_json_plotly_def determine_engine_def PlotlyJSONEncoder_dumps_def
      strict_json_def Let_def split: sum.splits)

text \<open>The scanner fails with the decode error only, or leaves the model.\<close>


lemma map_sum_id_Inl: "map_sum id f x = Inl e \<longleftrightarrow> x = Inl e"
  by (cases x) simp_all

lemma scanstring_errors: "scanstring s = Inl e \<Longrightarrow> e = JSONDecodeError \<or> e = OutsideModel"
proof (induction s arbitrary: e rule: scanstring.induct)
  case (1 s)
  show ?case
  proof (cases s)
    case Nil
    with "1.prems" show ?thesis by (simp add: scanstring.simps)
  next
    case (Cons c cs)
    note s = Cons
    show ?thesis
    proof (cases "c = CHR 0x22")
      case True
      with "1.prems" s show ?thesis by (simp add: scanstring.simps)
    next
      case nq: False
      show ?thesis
      proof (cases "c = CHR 0x5C")
        case False
        with "1.prems" s nq "1.IH"(3) [OF s nq False, of e] show ?thesis
          by (subst (asm) scanstring.simps) (auto simp: map_sum_id_Inl split: if_splits)
      next
        case bs: True
        show ?thesis
        proof (cases cs)
          case Nil
          with "1.prems" s nq bs show ?thesis by (simp add: scanstring.simps)
        next
          case (Cons d ds)
          note cs = Cons
          show ?thesis
          proof (cases "d = CHR ''u''")
            case True
            with "1.prems" s nq bs cs "1.IH"(1) [OF s nq bs cs True, of _ e] show ?thesis
              by (subst (asm) scanstring.simps)
                (auto simp: map_sum_id_Inl split: if_splits option.splits)
          next
            case False
            with "1.prems" s nq bs cs "1.IH"(2) [OF s nq bs cs False, of _ e] show ?thesis
              by (subst (asm) scanstring.simps)
                (auto simp: map_sum_id_Inl split: if_splits option.splits)
          qed
        qed
      qed
    qed
  qed
qed

lemma scan_errors:
  "(scan_once pf pc n s = Inl e \<longrightarrow> e = JSONDecodeError \<or> e = OutsideModel)
   \<and> (scan_array pf pc n s = Inl e \<longrightarrow> e = JSONDecodeError \<or> e = OutsideModel)
   \<and> (scan_object pf pc n s = Inl e \<longrightarrow> e = JSONDecodeError \<or> e = OutsideModel)"
proof (induction n arbitrary: s e)
  case 0
  show ?case by simp
next
  case (Suc n)
  have once: "e = JSONDecodeError \<or> e = OutsideModel" if "scan_once pf pc n t = Inl e" for t e
    using Suc [of t e] that by blast
  have array: "e = JSONDecodeError \<or> e = OutsideModel" if "scan_array pf pc n t = Inl e" for t e
    using Suc [of t e] that by blast
  have object: "e = JSONDecodeError \<or> e = OutsideModel" if "scan_object pf pc n t = Inl e" for t e
    using Suc [of t e] that by blast
  have 1: "e = JSONDecodeError \<or> e = OutsideModel" if "scan_once pf pc (Suc n) s = Inl e"
    using that
    by (auto simp: map_sum_id_Inl split: list.splits if_splits option.splits
        dest: scanstring_errors array object)
  have 2: "e = JSONDecodeError \<or> e = OutsideModel" if "scan_array pf pc (Suc n) s = Inl e"
    using that
    by (auto simp: map_sum_id_Inl split: list.splits if_splits sum.splits prod.splits
        dest: once array)
  have 3: "e = JSONDecodeError \<or> e = OutsideModel" if "scan_object pf pc (Suc n) s = Inl e"
    using that
    by (auto simp: map_sum_id_Inl split: list.splits if_splits sum.splits prod.splits
        dest: scanstring_errors once object)
  from 1 2 3 show ?case by blast
qed

lemma json_loads_errors:
  "json_loads pf pc s = Inl e \<Longrightarrow> e = JSONDecodeError \<or> e = OutsideModel"
  using scan_errors [of pf pc "Suc (length s)" "skip_ws s" e]
  by (auto simp: json_loads_def split: sum.splits prod.splits if_splits)

text \<open>
  Claim C7, as amended. Decode returns what the backend returns, an exception included,
  with nothing added: for \<open>json\<close> and \<open>legacy\<close> that is \<^verbatim>\<open>json.loads\<close> on the str
  (on the UTF-8 decoding of bytes), for \<open>orjson\<close> it is \<^verbatim>\<open>orjson.loads\<close> on the
  argument. So malformed text fails with the parser's own error, and decode with
  \<open>json\<close> or \<open>legacy\<close> never fails with the module's message about separators.
\<close>

theorem decode_propagates_backend_result:
  "(engine \<in> set [''json'', ''legacy''] \<longrightarrow>
      from_json_plotly env (StrArg s) (Some engine) = json_loads (env_float env) default_constant s
      \<and> from_json_plotly env (BytesArg b) (Some engine)
          = (case utf8_decode b of
               Inl e \<Rightarrow> Inl e
             | Inr t \<Rightarrow> json_loads (env_float env) default_constant t)
      \<and> from_json_plotly env (StrArg s) (Some engine) \<noteq> Inl StrictEncodingFailed
      \<and> from_json_plotly env (BytesArg b) (Some engine) \<noteq> Inl StrictEncodingFailed)
   \<and> (env_orjson env = Some oj \<longrightarrow>
      from_json_plotly env (StrArg s) (Some ''orjson'') = orjson_loads oj (StrArg s)
      \<and> from_json_plotly env (BytesArg b) (Some ''orjson'') = orjson_loads oj (BytesArg b))
   \<and> (engine \<in> set [''json'', ''legacy'']
        \<and> json_loads (env_float env) default_constant s = Inl JSONDecodeError
      \<longrightarrow> from_json_plotly env (StrArg s) (Some engine) = Inl JSONDecodeError)"
proof -
  have j: "from_json_plotly env (StrArg s) (Some engine) = json_loads (env_float env) default_constant s"
    and b: "from_json_plotly env (BytesArg b) (Some engine)
          = (case utf8_decode b of
               Inl e \<Rightarrow> Inl e
             | Inr t \<Rightarrow> json_loads (env_float env) default_constant t)"
    if "engine \<in> set [''json'', ''legacy'']"
    using that by (auto simp: from_json_plotly_def determine_engine_def)
  have n: "json_loads (env_float env) default_constant t \<noteq> Inl StrictEncodingFailed" for t
    using json_loads_errors [of "env_float env" default_constant t StrictEncodingFailed] by auto
  have u: "(case utf8_decode b of
               Inl e \<Rightarrow> Inl e
             | Inr t \<Rightarrow> json_loads (env_float env) default_constant t) \<noteq> Inl StrictEncodingFailed"
    using n by (auto simp: utf8_decode_def split: sum.splits option.splits if_splits)
  have o: "from_json_plotly env (StrArg s) (Some ''orjson'') = orjson_loads oj (StrArg s)
      \<and> from_json_plotly env (BytesArg b) (Some ''orjson'') = orjson_loads oj (BytesArg b)"
    if "env_orjson env = Some oj"
    using that by (simp add: from_json_plotly_def determine_engine_def validate_orjson_def)
  from j b n u o show ?thesis by auto
qed

theorem decode_propagates_backend_result_witness:
  "''json'' \<in> set [''json'', ''legacy'']
   \<and> json_loads (env_float (example_env True)) default_constant
        (''{'' @ [CHR 0x22] @ ''a'' @ [CHR 0x22] @ '';1}'')
       = Inl JSONDecodeError
   \<and> from_json_plotly (example_env True) (StrArg (''{'' @ [CHR 0x22] @ ''a'' @ [CHR 0x22] @ '';1}''))
        (Some ''json'') = Inl JSONDecodeError
   \<and> from_json_plotly (example_env True) (BytesArg [CHR 0xC3, CHR 0x28]) (Some ''json'')
       = Inl UnicodeDecodeError
   \<and> env_orjson (example_env True) = Some example_orjson
   \<and> from_json_plotly (example_env True) (StrArg ''[1,]'') (Some ''orjson'')
       = orjson_loads example_orjson (StrArg ''[1,]'')"
proof -
  let ?s = "''{'' @ [CHR 0x22] @ ''a'' @ [CHR 0x22] @ '';1}''"
  have 1: "''json'' \<in> set [''json'', ''legacy'']" by simp
  have 2: "json_loads (env_float (example_env True)) default_constant ?s = Inl JSONDecodeError"
    by code_simp
  have 3: "env_orjson (example_env True) = Some example_orjson" by (simp add: example_env_def)
  have 4: "utf8_decode [CHR 0xC3, CHR 0x28] = Inl UnicodeDecodeError" by code_simp
  from decode_propagates_backend_result [of "''json''" "example_env True" ?s "[CHR 0xC3, CHR 0x28]"
      example_orjson] 1 2 4
  have 5: "from_json_plotly (example_env True) (StrArg ?s) (Some ''json'') = Inl JSONDecodeError"
    and 6: "from_json_plotly (example_env True) (BytesArg [CHR 0xC3, CHR 0x28]) (Some ''json'')
       = Inl UnicodeDecodeError"
    by simp_all
  from decode_propagates_backend_result [of "''json''" "example_env True" "''[1,]''" "[]" example_orjson] 3
  have 7: "from_json_plotly (example_env True) (StrArg ''[1,]'') (Some ''orjson'')
       = orjson_loads example_orjson (StrArg ''[1,]'')" by simp
  from 1 2 3 5 6 7 show ?thesis by blast
qed

text \<open>
  Claim C7 as stated has decode attach a hint about separators to the parse error. On
  text written with a wrong key separator decode fails with the parser's error, and not
  with the module's message about separators.
\<close>

theorem decode_no_separator_hint_counterexample:
  "from_json_plotly (example_env False) (StrArg (''{'' @ [CHR 0x22] @ ''a'' @ [CHR 0x22] @ '';1}''))
     (Some ''json'') = Inl JSONDecodeError
   \<and> from_json_plotly (example_env False) (StrArg (''{'' @ [CHR 0x22] @ ''a'' @ [CHR 0x22] @ '';1}''))
     (Some ''json'') \<noteq> Inl StrictEncodingFailed"
  by code_simp

section \<open>The scanner reads back what the encoder writes\<close>

lemma follow_ok_Nil [simp]: "follow_ok []"
  by (simp add: follow_ok_def)

lemma follow_ok_not_digit: "follow_ok (c # cs) \<Longrightarrow> \<not> is_digit c"
  by (auto simp: follow_ok_def is_digit_def is_ws_def)

lemma follow_ok_head:
  "follow_ok (c # cs) \<Longrightarrow>
   c \<noteq> CHR ''-'' \<and> c \<noteq> CHR ''+'' \<and> c \<noteq> CHR ''.'' \<and> c \<noteq> CHR ''e'' \<and> c \<noteq> CHR ''E'' \<and> \<not> is_digit c"
  by (auto simp: follow_ok_def is_digit_def is_ws_def)

lemma takeWhile_digit_follow:
  "follow_ok ys \<Longrightarrow> takeWhile is_digit (xs @ ys) = takeWhile is_digit xs"
proof (induction xs)
  case Nil
  then show ?case by (cases ys) (auto dest: follow_ok_not_digit)
next
  case (Cons x xs)
  then show ?case by simp
qed

lemma dropWhile_digit_follow:
  "follow_ok ys \<Longrightarrow> dropWhile is_digit (xs @ ys) = dropWhile is_digit xs @ ys"
proof (induction xs)
  case Nil
  then show ?case by (cases ys) (auto dest: follow_ok_not_digit)
next
  case (Cons x xs)
  then show ?case by simp
qed

lemma length_takeWhile_le': "length (takeWhile P xs) \<le> length xs"
  by (rule length_takeWhile_le)

lemma takeWhile_nonempty_length: "takeWhile P xs \<noteq> [] \<Longrightarrow> Suc 0 \<le> length xs"
  by (cases xs) auto

lemma lex_digits_follow:
  assumes "follow_ok ys"
  shows "lex_digits sg (xs @ ys) = map_option (\<lambda>(l, r). (l, r @ ys)) (lex_digits sg xs)"
  by (auto simp: lex_digits_def takeWhile_digit_follow [OF assms] Let_def
      takeWhile_nonempty_length length_takeWhile_le)

lemma lex_integer_follow:
  assumes "follow_ok ys"
  shows "lex_integer (s @ ys) = map_option (\<lambda>(l, r). (l, r @ ys)) (lex_integer s)"
proof (cases s)
  case Nil
  with assms show ?thesis
    by (cases ys) (auto simp: lex_integer_def lex_digits_def dest: follow_ok_head)
next
  case (Cons c cs)
  then show ?thesis
    using lex_digits_follow [OF assms, of "''-''" cs] lex_digits_follow [OF assms, of "[]" "c # cs"]
    by (simp add: lex_integer_def)
qed

lemma lex_frac_follow:
  assumes "follow_ok ys"
  shows "lex_frac (s @ ys) = (fst (lex_frac s), snd (lex_frac s) @ ys)"
proof (cases s)
  case Nil
  with assms show ?thesis by (cases ys) (auto simp: lex_frac_def dest: follow_ok_head)
next
  case (Cons c cs)
  with assms show ?thesis
    by (simp add: lex_frac_def takeWhile_digit_follow dropWhile_digit_follow)
qed

lemma lex_exp_follow:
  assumes "follow_ok ys"
  shows "lex_exp (s @ ys) = (fst (lex_exp s), snd (lex_exp s) @ ys)"
proof (cases s)
  case Nil
  with assms show ?thesis by (cases ys) (auto simp: lex_exp_def dest: follow_ok_head)
next
  case (Cons c cs)
  show ?thesis
  proof (cases cs)
    case Nil
    with Cons assms show ?thesis
      by (cases ys) (auto simp: lex_exp_def dest: follow_ok_head)
  next
    case (Cons d ds)
    with \<open>s = c # cs\<close> assms show ?thesis
      by (simp add: lex_exp_def takeWhile_digit_follow dropWhile_digit_follow
          takeWhile_digit_follow [of ys "d # ds", simplified]
          dropWhile_digit_follow [of ys "d # ds", simplified])
  qed
qed

lemma match_number_follow:
  assumes "follow_ok ys"
  shows "match_number pf (s @ ys) = map_option (\<lambda>(v, r). (v, r @ ys)) (match_number pf s)"
proof (cases "lex_integer s")
  case None
  then show ?thesis by (simp add: match_number_def lex_integer_follow [OF assms])
next
  case (Some p)
  obtain l r where p: "p = (l, r)" by (cases p)
  have f: "lex_frac (r @ ys) = (fst (lex_frac r), snd (lex_frac r) @ ys)"
    by (rule lex_frac_follow [OF assms])
  have e: "lex_exp (snd (lex_frac r) @ ys)
      = (fst (lex_exp (snd (lex_frac r))), snd (lex_exp (snd (lex_frac r))) @ ys)"
    by (rule lex_exp_follow [OF assms])
  show ?thesis
    by (simp add: match_number_def lex_integer_follow [OF assms] Some p f e Let_def
        split_beta)
qed

lemma float_repr_roundtrip:
  "float_repr_ok pf r \<Longrightarrow> follow_ok ys \<Longrightarrow> match_number pf (r @ ys) = Some (PFloat (Finite r), ys)"
  by (simp add: float_repr_ok_def match_number_follow)

lemma less_10_cases:
  "k < 10 \<Longrightarrow> k = 0 \<or> k = 1 \<or> k = 2 \<or> k = 3 \<or> k = 4 \<or> k = 5 \<or> k = 6 \<or> k = 7 \<or> k = 8 \<or> k = (9::nat)"
  by arith

lemma less_16_cases:
  "k < 16 \<Longrightarrow> k = 0 \<or> k = 1 \<or> k = 2 \<or> k = 3 \<or> k = 4 \<or> k = 5 \<or> k = 6 \<or> k = 7 \<or> k = 8 \<or> k = 9
     \<or> k = 10 \<or> k = 11 \<or> k = 12 \<or> k = 13 \<or> k = 14 \<or> k = (15::nat)"
  by arith

lemma digit_char_props:
  assumes "k < 10"
  shows "is_digit (digit_char k)" and "digit_val (digit_char k) = k"
    and "digit_char k = CHR ''0'' \<longleftrightarrow> k = 0" and "digit_char k \<noteq> CHR ''-''"
  using less_10_cases [OF assms]
  by (auto simp: digit_char_def is_digit_def digit_val_def)

lemma nat_repr_digits: "\<forall>c \<in> set (nat_repr n). is_digit c"
proof (induction n rule: nat_repr.induct)
  case (1 n)
  show ?case
  proof (cases "n < 10")
    case True
    then show ?thesis by (subst nat_repr.simps) (simp add: digit_char_props)
  next
    case False
    with 1 show ?thesis by (subst nat_repr.simps) (simp add: digit_char_props)
  qed
qed

lemma nat_repr_nonempty: "nat_repr n \<noteq> []"
  by (subst nat_repr.simps) simp

lemma hd_nat_repr: "hd (nat_repr n) = CHR ''0'' \<longleftrightarrow> n = 0"
proof (induction n rule: nat_repr.induct)
  case (1 n)
  show ?case
  proof (cases "n < 10")
    case True
    then show ?thesis by (subst nat_repr.simps) (simp add: digit_char_props)
  next
    case False
    then have "n div 10 \<noteq> 0" by simp
    with False 1 show ?thesis
      by (subst nat_repr.simps) (simp add: nat_repr_nonempty)
  qed
qed

lemma nat_repr_0: "nat_repr 0 = ''0''"
  by (subst nat_repr.simps) (simp add: digit_char_def)

lemma nat_of_digits_snoc: "nat_of_digits (ds @ [d]) = 10 * nat_of_digits ds + digit_val d"
  by (simp add: nat_of_digits_def)

lemma nat_of_digits_nat_repr: "nat_of_digits (nat_repr n) = n"
proof (induction n rule: nat_repr.induct)
  case (1 n)
  show ?case
  proof (cases "n < 10")
    case True
    then show ?thesis
      by (subst nat_repr.simps) (simp add: nat_of_digits_def digit_char_props)
  next
    case False
    with 1 show ?thesis
      by (subst nat_repr.simps) (simp add: nat_of_digits_snoc digit_char_props)
  qed
qed

lemma takeWhile_all: "\<forall>c \<in> set xs. P c \<Longrightarrow> takeWhile P xs = xs"
  by (induction xs) auto

lemma lex_digits_nat_repr: "lex_digits sg (nat_repr n) = Some (sg @ nat_repr n, [])"
proof -
  have t: "takeWhile is_digit (nat_repr n) = nat_repr n"
    by (rule takeWhile_all) (rule nat_repr_digits)
  show ?thesis
    using nat_repr_0 by (auto simp: lex_digits_def t nat_repr_nonempty hd_nat_repr)
qed

lemma hd_nat_repr_not_minus: "hd (nat_repr n) \<noteq> CHR ''-''"
proof -
  have "is_digit (hd (nat_repr n))"
    using nat_repr_digits [of n] nat_repr_nonempty [of n] by (cases "nat_repr n") auto
  then show ?thesis by (auto simp: is_digit_def)
qed

lemma lex_integer_int_repr: "lex_integer (int_repr i) = Some (int_repr i, [])"
proof (cases "i < 0")
  case True
  then show ?thesis by (simp add: int_repr_def lex_integer_def lex_digits_nat_repr)
next
  case False
  obtain c cs where r: "nat_repr (nat i) = c # cs"
    using nat_repr_nonempty [of "nat i"] by (cases "nat_repr (nat i)") auto
  with hd_nat_repr_not_minus [of "nat i"] have "c \<noteq> CHR ''-''" by simp
  with False r lex_digits_nat_repr [of "[]" "nat i"] show ?thesis
    by (simp add: int_repr_def lex_integer_def)
qed

lemma int_of_literal_int_repr: "int_of_literal (int_repr i) = i"
proof (cases "i < 0")
  case True
  then show ?thesis by (simp add: int_repr_def int_of_literal_def nat_of_digits_nat_repr)
next
  case False
  obtain c cs where r: "nat_repr (nat i) = c # cs"
    using nat_repr_nonempty [of "nat i"] by (cases "nat_repr (nat i)") auto
  with hd_nat_repr_not_minus [of "nat i"] have "c \<noteq> CHR ''-''" by simp
  with False r nat_of_digits_nat_repr [of "nat i"] show ?thesis
    by (simp add: int_repr_def int_of_literal_def)
qed

lemma match_number_int_repr: "match_number pf (int_repr i) = Some (PInt i, [])"
  by (simp add: match_number_def lex_integer_int_repr lex_frac_def lex_exp_def
      int_of_literal_int_repr)

lemma int_repr_roundtrip:
  "follow_ok ys \<Longrightarrow> match_number pf (int_repr i @ ys) = Some (PInt i, ys)"
  by (simp add: match_number_follow match_number_int_repr)

lemma int_repr_head: "int_repr i \<noteq> [] \<and> (hd (int_repr i) = CHR ''-'' \<or> is_digit (hd (int_repr i)))"
proof -
  have "is_digit (hd (nat_repr n))" for n
    using nat_repr_digits [of n] nat_repr_nonempty [of n] by (cases "nat_repr n") auto
  then show ?thesis by (simp add: int_repr_def nat_repr_nonempty)
qed

lemma scanstring_quote: "scanstring (CHR 0x22 # cs) = Inr ([], cs)"
  by (subst scanstring.simps) simp

lemma hex_val_hex_digit: "k < 16 \<Longrightarrow> hex_val (hex_digit k) = Some k"
  using less_16_cases [of k]
  by (auto simp: hex_val_def hex_digit_def is_digit_def digit_val_def)

lemma char_div_16: "of_char (c::char) div 16 < (16::nat)"
  by (rule less_mult_imp_div_less) simp

lemma decode_u00: 
  "decode_uXXXX (CHR ''0'' # CHR ''0'' # hex_digit (of_char c div 16) # hex_digit (of_char c mod 16) # rest)
     = Some (of_char (c::char))"
  by (simp add: decode_uXXXX_def hex_val_hex_digit char_div_16)
     (simp add: hex_val_def is_digit_def digit_val_def)

lemma scanstring_escape_char:
  "scanstring (escape_char c @ rest) = map_sum id (\<lambda>(t, r). (c # t, r)) (scanstring rest)"
proof -
  consider (special) "c \<in> {CHR 0x5C, CHR 0x22, CHR 0x08, CHR 0x0C, CHR 0x0A, CHR 0x0D, CHR 0x09}"
    | (plain) "c \<notin> {CHR 0x5C, CHR 0x22, CHR 0x08, CHR 0x0C, CHR 0x0A, CHR 0x0D, CHR 0x09}"
        "CHR '' '' \<le> c \<and> c \<le> CHR ''~''"
    | (uni) "c \<notin> {CHR 0x5C, CHR 0x22, CHR 0x08, CHR 0x0C, CHR 0x0A, CHR 0x0D, CHR 0x09}"
        "\<not> (CHR '' '' \<le> c \<and> c \<le> CHR ''~'')"
    by blast
  then show ?thesis
  proof cases
    case special
    then show ?thesis
      by (subst scanstring.simps) (auto simp: escape_char_def backslash_def)
  next
    case plain
    then show ?thesis
      by (subst scanstring.simps) (auto simp: escape_char_def)
  next
    case uni
    have lt: "of_char c < (256::nat)" by (rule nat_of_char_less_256)
    from uni show ?thesis
      by (subst scanstring.simps) (auto simp: escape_char_def decode_u00 lt)
  qed
qed

lemma scanstring_roundtrip:
  "scanstring (concat (map escape_char s) @ CHR 0x22 # rest) = Inr (s, rest)"
  by (induction s) (simp_all add: scanstring_quote scanstring_escape_char)

lemma scan_basestring:
  "scanstring (tl (encode_basestring_ascii s) @ rest) = Inr (s, rest)"
  by (simp add: encode_basestring_ascii_def scanstring_roundtrip)

lemma encode_basestring_ascii_Cons:
  "encode_basestring_ascii s = CHR 0x22 # tl (encode_basestring_ascii s)"
  by (simp add: encode_basestring_ascii_def)

lemma plain_separators_json_opts_of: "plain_separators (json_opts_of pretty)"
  by (simp add: plain_separators_def json_opts_of_def item_separator_def key_separator_def)

lemma skip_ws_ws: "\<forall>c \<in> set w. is_ws c \<Longrightarrow> skip_ws (w @ s) = skip_ws s"
  by (induction w) (auto simp: skip_ws_def)

lemma skip_ws_value: "value_start s \<Longrightarrow> skip_ws (s @ t) = s @ t"
  by (cases s) (auto simp: value_start_def skip_ws_def)

lemma skip_ws_nonws: "\<not> is_ws c \<Longrightarrow> skip_ws (c # s) = c # s"
  by (simp add: skip_ws_def)

lemma newline_indent_ws: "\<forall>c \<in> set (newline_indent opts lvl). is_ws c"
  by (auto simp: newline_indent_def is_ws_def split: option.splits)

lemma follow_ok_ws: "\<forall>c \<in> set w. is_ws c \<Longrightarrow> follow_ok (c' # t) \<Longrightarrow> follow_ok (w @ c' # t)"
  by (cases w) (auto simp: follow_ok_def)

lemma sequence_Inr_iff:
  "sequence (map f xs) = Inr ys \<longleftrightarrow> list_all2 (\<lambda>x y. f x = Inr y) xs ys"
proof (induction xs arbitrary: ys)
  case Nil
  then show ?case by auto
next
  case (Cons x xs)
  show ?case
  proof (cases "f x")
    case (Inl e)
    then show ?thesis by (auto simp: list_all2_Cons1)
  next
    case (Inr y)
    with Cons show ?thesis
      by (cases "sequence (map f xs)") (auto simp: list_all2_Cons1)
  qed
qed

lemma value_start_append: "value_start s \<Longrightarrow> value_start (s @ t)"
  by (cases s) (auto simp: value_start_def)

lemma value_start_intercalate: "value_start c \<Longrightarrow> value_start (intercalate sep (c # cs))"
  by (cases cs) (auto simp: value_start_append)

lemma skip_ws_value_start: "value_start s \<Longrightarrow> skip_ws s = s"
  using skip_ws_value [of s "[]"] by simp

lemma scan_array_chunks:
  assumes "list_all2 (reads_back pf) xs chunks" and "chunks \<noteq> []"
    and w1: "\<forall>c \<in> set w1. is_ws c" and w0: "\<forall>c \<in> set w0. is_ws c"
    and "length (intercalate (CHR '','' # w1) chunks @ w0 @ '']'') \<le> n"
  shows "scan_array pf coerce_to_strict n (intercalate (CHR '','' # w1) chunks @ w0 @ CHR '']'' # ys)
     = Inr (map strict_tree xs, ys)"
  using assms(1,2,5)
proof (induction xs chunks arbitrary: n rule: list_all2_induct)
  case Nil
  then show ?case by simp
next
  case (Cons x xs c cs)
  from Cons.prems obtain m where n: "n = Suc m" by (cases n) auto
  have fo: "follow_ok (w0 @ CHR '']'' # ys)"
    by (rule follow_ok_ws [OF w0]) (simp add: follow_ok_def)
  have sk0: "skip_ws (w0 @ CHR '']'' # ys) = CHR '']'' # ys"
    by (simp add: skip_ws_ws [OF w0] skip_ws_nonws is_ws_def)
  show ?case
  proof (cases cs)
    case Nil
    with Cons.hyps(2) have xs: "xs = []" by simp
    from Nil Cons.prems n have len: "length c \<le> m" by simp
    from Cons.hyps(1) fo len
    have "scan_once pf coerce_to_strict m (c @ w0 @ CHR '']'' # ys)
        = Inr (strict_tree x, w0 @ CHR '']'' # ys)"
      by (simp add: reads_back_def)
    with Nil xs n sk0 show ?thesis by simp
  next
    case inner: (Cons c2 cs2)
    let ?rest = "intercalate (CHR '','' # w1) cs @ w0 @ CHR '']'' # ys"
    from inner Cons.prems n have len: "length c \<le> m"
      and len2: "length (intercalate (CHR '','' # w1) cs @ w0 @ '']'') \<le> m"
      by simp_all
    have fo2: "follow_ok (CHR '','' # w1 @ ?rest)" by (simp add: follow_ok_def)
    from Cons.hyps(1) fo2 len
    have 1: "scan_once pf coerce_to_strict m (c @ CHR '','' # w1 @ ?rest)
        = Inr (strict_tree x, CHR '','' # w1 @ ?rest)"
      by (simp add: reads_back_def)
    from Cons.hyps(2) inner have "reads_back pf (hd xs) c2"
      by (cases xs) auto
    then have vs: "value_start c2" by (simp add: reads_back_def)
    have sk: "skip_ws (w1 @ ?rest) = ?rest"
    proof -
      have "skip_ws (w1 @ ?rest) = skip_ws ?rest" by (rule skip_ws_ws [OF w1])
      also have "\<dots> = ?rest"
        unfolding inner
        by (rule skip_ws_value_start)
           (intro value_start_append value_start_intercalate vs)
      finally show ?thesis .
    qed
    have ne: "cs \<noteq> []" using inner by simp
    have 2: "scan_array pf coerce_to_strict m ?rest = Inr (map strict_tree xs, ys)"
      by (rule Cons.IH [OF ne len2])
    from 1 2 sk n inner show ?thesis
      by (simp add: skip_ws_nonws is_ws_def)
  qed
qed

lemma entry_Cons: "entry keysep k chunk = CHR 0x22 # tl (encode_basestring_ascii k) @ keysep @ chunk"
  by (simp add: entry_def encode_basestring_ascii_def)

lemma intercalate_Cons_ex: "\<exists>t. intercalate sep (e # es) = e @ t"
  by (cases es) auto

lemma intercalate_entries_quote:
  assumes "length ks = length chunks" and "chunks \<noteq> []"
  shows "\<exists>body. intercalate sep (map2 (entry keysep) ks chunks) = CHR 0x22 # body"
proof -
  from assms obtain c cs k ks' where c: "chunks = c # cs" and ks: "ks = k # ks'"
    by (cases chunks; cases ks) auto
  have m: "map2 (entry keysep) ks chunks = entry keysep k c # map2 (entry keysep) ks' cs"
    by (simp add: c ks)
  obtain t where "intercalate sep (entry keysep k c # map2 (entry keysep) ks' cs)
      = entry keysep k c @ t"
    using intercalate_Cons_ex by blast
  then show ?thesis
    unfolding m by (subst (asm) entry_Cons) simp
qed

lemma scan_object_chunks:
  assumes "list_all2 (reads_back pf) vs chunks" and "length ks = length chunks" and "chunks \<noteq> []"
    and w1: "\<forall>c \<in> set w1. is_ws c" and w0: "\<forall>c \<in> set w0. is_ws c"
    and wk: "\<forall>c \<in> set wk. is_ws c"
    and "intercalate (CHR '','' # w1) (map2 (entry (CHR '':'' # wk)) ks chunks) = CHR 0x22 # body"
    and "length (body @ w0 @ ''}'') \<le> n"
  shows "scan_object pf coerce_to_strict n (body @ w0 @ CHR ''}'' # ys)
     = Inr (zip ks (map strict_tree vs), ys)"
  using assms(1,2,3,7,8)
proof (induction vs chunks arbitrary: n ks body rule: list_all2_induct)
  case Nil
  then show ?case by simp
next
  case (Cons v vs c cs)
  from Cons.prems(1) obtain k ks' where ks: "ks = k # ks'" and lks: "length ks' = length cs"
    by (cases ks) auto
  from Cons.hyps(1) have vs: "value_start c" by (simp add: reads_back_def)
  let ?key = "tl (encode_basestring_ascii k)"
  have sk0: "skip_ws (w0 @ CHR ''}'' # ys) = CHR ''}'' # ys"
    by (simp add: skip_ws_ws [OF w0] skip_ws_nonws is_ws_def)
  have fo: "follow_ok (w0 @ CHR ''}'' # ys)"
    by (rule follow_ok_ws [OF w0]) (simp add: follow_ok_def)
  have skk: "skip_ws (wk @ c @ t) = c @ t" for t
    by (simp add: skip_ws_ws [OF wk] skip_ws_value [OF vs])
  show ?case
  proof (cases cs)
    case Nil
    with lks have ks': "ks' = []" by simp
    with Nil ks Cons.prems(3) have body: "body = ?key @ CHR '':'' # wk @ c"
      by (simp add: entry_Cons)
    with Cons.prems(4) obtain m where n: "n = Suc m" and len: "length c \<le> m"
      by (cases n) auto
    from Cons.hyps(1) fo len
    have 1: "scan_once pf coerce_to_strict m (c @ w0 @ CHR ''}'' # ys)
        = Inr (strict_tree v, w0 @ CHR ''}'' # ys)"
      by (simp add: reads_back_def)
    have 2: "scanstring (?key @ CHR '':'' # wk @ c @ w0 @ CHR ''}'' # ys)
        = Inr (k, CHR '':'' # wk @ c @ w0 @ CHR ''}'' # ys)"
      by (rule scan_basestring)
    from Cons.hyps(2) Nil have vs_nil: "vs = []" by simp
    show ?thesis
      by (simp add: n body 2 skip_ws_nonws is_ws_def skk 1 sk0 ks ks' vs_nil)
  next
    case inner: (Cons c2 cs2)
    then have ne: "cs \<noteq> []" by simp
    from intercalate_entries_quote [OF lks ne]
    obtain body' where b': "intercalate (CHR '','' # w1) (map2 (entry (CHR '':'' # wk)) ks' cs)
        = CHR 0x22 # body'" by blast
    obtain e es where es: "map2 (entry (CHR '':'' # wk)) ks' cs = e # es"
      using lks inner by (cases ks') auto
    from ks Cons.prems(3) es b'
    have body: "body = ?key @ CHR '':'' # wk @ c @ CHR '','' # w1 @ CHR 0x22 # body'"
      by (simp add: entry_Cons)
    let ?rest = "CHR '','' # w1 @ CHR 0x22 # body' @ w0 @ CHR ''}'' # ys"
    from body Cons.prems(4) obtain m where n: "n = Suc m" and len: "length c \<le> m"
      and len2: "length (body' @ w0 @ ''}'') \<le> m"
      by (cases n) auto
    have fo2: "follow_ok ?rest" by (simp add: follow_ok_def)
    from Cons.hyps(1) fo2 len
    have 1: "scan_once pf coerce_to_strict m (c @ ?rest) = Inr (strict_tree v, ?rest)"
      by (simp add: reads_back_def)
    have 2: "scanstring (?key @ CHR '':'' # wk @ c @ ?rest) = Inr (k, CHR '':'' # wk @ c @ ?rest)"
      by (rule scan_basestring)
    have 3: "scan_object pf coerce_to_strict m (body' @ w0 @ CHR ''}'' # ys)
        = Inr (zip ks' (map strict_tree vs), ys)"
      by (rule Cons.IH [OF lks ne b' len2])
    have sk1: "skip_ws (w1 @ CHR 0x22 # body' @ w0 @ CHR ''}'' # ys)
        = CHR 0x22 # body' @ w0 @ CHR ''}'' # ys"
      by (simp add: skip_ws_ws [OF w1] skip_ws_nonws is_ws_def)
    show ?thesis
      by (simp add: n body 2 skip_ws_nonws is_ws_def skk 1 sk1 3 ks)
  qed
qed

lemma lex_digits_Some_head:
  "lex_digits sg s = Some r \<Longrightarrow> s \<noteq> [] \<and> is_digit (hd s)"
  by (cases s) (auto simp: lex_digits_def Let_def split: if_splits)

lemma match_number_Some_head:
  "match_number pf s = Some r \<Longrightarrow> s \<noteq> [] \<and> (hd s = CHR ''-'' \<or> is_digit (hd s))"
  by (cases s)
     (auto simp: match_number_def lex_integer_def split: option.splits if_splits
           dest: lex_digits_Some_head)

lemma scan_once_number:
  assumes "match_number pf s = Some r"
  shows "scan_once pf pc (Suc m) s = Inr r"
proof -
  from match_number_Some_head [OF assms] obtain c cs where s: "s = c # cs"
    and c: "c = CHR ''-'' \<or> is_digit c"
    by (cases s) auto
  from c have "c \<noteq> CHR 0x22 \<and> c \<noteq> CHR ''{'' \<and> c \<noteq> CHR ''['' \<and> c \<noteq> CHR ''n''
      \<and> c \<noteq> CHR ''t'' \<and> c \<noteq> CHR ''f''"
    by (auto simp: is_digit_def)
  with assms s show ?thesis by simp
qed

lemma number_value_start:
  assumes "match_number pf s = Some r"
  shows "value_start s"
proof -
  from match_number_Some_head [OF assms] obtain c cs where s: "s = c # cs"
    and c: "c = CHR ''-'' \<or> is_digit c"
    by (cases s) auto
  then show ?thesis by (auto simp: value_start_def is_ws_def is_digit_def)
qed

lemma reads_back_number:
  assumes "match_number pf s = Some (v, [])" and "strict_tree v = v"
  shows "reads_back pf v s"
  unfolding reads_back_def
proof (intro conjI allI impI)
  show "value_start s" by (rule number_value_start [OF assms(1)])
next
  fix ys n
  assume fo: "follow_ok ys" and len: "length s \<le> n"
  from match_number_Some_head [OF assms(1)] len obtain m where n: "n = Suc m"
    by (cases n) auto
  have "match_number pf (s @ ys) = Some (v, ys)"
    by (simp add: match_number_follow [OF fo] assms(1))
  then show "scan_once pf coerce_to_strict n (s @ ys) = Inr (strict_tree v, ys)"
    unfolding n assms(2) by (rule scan_once_number)
qed

lemma reads_back_int: "reads_back pf (PInt i) (int_repr i)"
  by (rule reads_back_number) (simp_all add: match_number_int_repr)

lemma reads_back_finite: "float_repr_ok pf r \<Longrightarrow> reads_back pf (PFloat (Finite r)) r"
  by (rule reads_back_number) (simp_all add: float_repr_ok_def)

lemma match_number_letter:
  "\<not> is_digit c \<Longrightarrow> c \<noteq> CHR ''-'' \<Longrightarrow> match_number pf (c # cs) = None"
  by (simp add: match_number_def lex_integer_def lex_digits_def)

lemma match_number_minus_letter:
  "\<not> is_digit c \<Longrightarrow> match_number pf (CHR ''-'' # c # cs) = None"
  by (simp add: match_number_def lex_integer_def lex_digits_def)

lemma reads_back_literal:
  "reads_back pf PNone ''null''" "reads_back pf (PBool True) ''true''" "reads_back pf (PBool False) ''false''"
  "reads_back pf (PFloat NaN) ''NaN''" "reads_back pf (PFloat PosInf) ''Infinity''"
  "reads_back pf (PFloat NegInf) ''-Infinity''"
  unfolding reads_back_def
  by (auto simp: value_start_def is_ws_def coerce_to_strict_def match_number_letter
      match_number_minus_letter is_digit_def elim!: le_SucE dest!: Suc_le_D)

lemma reads_back_str: "reads_back pf (PStr t) (encode_basestring_ascii t)"
  unfolding reads_back_def
proof (intro conjI allI impI)
  show "value_start (encode_basestring_ascii t)"
    by (simp add: encode_basestring_ascii_def value_start_def is_ws_def)
next
  fix ys n
  assume "length (encode_basestring_ascii t) \<le> n"
  then obtain m where n: "n = Suc m"
    by (cases n) (auto simp: encode_basestring_ascii_def)
  have "scan_once pf coerce_to_strict (Suc m) (CHR 0x22 # tl (encode_basestring_ascii t) @ ys)
      = Inr (PStr t, ys)"
    by (simp add: scan_basestring)
  then show "scan_once pf coerce_to_strict n (encode_basestring_ascii t @ ys) = Inr (strict_tree (PStr t), ys)"
    unfolding n by (simp add: encode_basestring_ascii_def)
qed

lemma update_fresh: "k \<notin> fst ` set al \<Longrightarrow> AList.update k v al = al @ [(k, v)]"
  by (induction al) auto

lemma py_dict_acc:
  "distinct (map fst (acc @ ps)) \<Longrightarrow>
   foldl (\<lambda>d (k, v). AList.update k v d) acc ps = acc @ ps"
proof (induction ps arbitrary: acc)
  case Nil
  then show ?case by simp
next
  case (Cons p ps)
  obtain k v where p: "p = (k, v)" by (cases p)
  from Cons.prems p have fresh: "k \<notin> fst ` set acc" by auto
  from Cons.prems p have "distinct (map fst ((acc @ [(k, v)]) @ ps))" by simp
  from Cons.IH [OF this] show ?case by (simp add: p update_fresh [OF fresh])
qed

lemma py_dict_distinct: "distinct (map fst ps) \<Longrightarrow> py_dict ps = ps"
  using py_dict_acc [of "[]" ps] by (simp add: py_dict_def)

lemma distinct_keys_sorted:
  "distinct (map fst kvs) \<Longrightarrow> distinct (map fst (sort_key fst kvs))"
  by (simp add: distinct_map)

lemma value_start_case:
  "value_start t \<Longrightarrow>
   (case t of [] \<Rightarrow> a | d # ds \<Rightarrow> if d = CHR '']'' then b ds else c (d # ds)) = c t"
  by (cases t) (auto simp: value_start_def)

lemma reads_back_empty: "reads_back pf (PList []) ''[]''" "reads_back pf (PDict []) ''{}''"
  unfolding reads_back_def
  by (auto simp: value_start_def is_ws_def skip_ws_def elim!: le_SucE dest!: Suc_le_D)

lemma reads_back_array:
  assumes la: "list_all2 (reads_back pf) xs chunks" and ne: "chunks \<noteq> []"
    and w1: "\<forall>c \<in> set w1. is_ws c" and w0: "\<forall>c \<in> set w0. is_ws c"
  shows "reads_back pf (PList xs)
           (''['' @ w1 @ intercalate (CHR '','' # w1) chunks @ w0 @ '']'')"
  unfolding reads_back_def
proof (intro conjI allI impI)
  show "value_start (''['' @ w1 @ intercalate (CHR '','' # w1) chunks @ w0 @ '']'')"
    by (simp add: value_start_def is_ws_def)
next
  fix ys n
  let ?items = "intercalate (CHR '','' # w1) chunks"
  assume fo: "follow_ok ys" and len: "length (''['' @ w1 @ ?items @ w0 @ '']'') \<le> n"
  then obtain m where n: "n = Suc m" and len2: "length (?items @ w0 @ '']'') \<le> m"
    by (cases n) auto
  from la ne obtain x xs' c cs where c: "chunks = c # cs" and "xs = x # xs'" and "reads_back pf x c"
    by (cases chunks; cases xs) auto
  then have vs: "value_start (?items @ w0 @ CHR '']'' # ys)"
    unfolding c by (intro value_start_append value_start_intercalate) (simp add: reads_back_def)
  from vs obtain d ds where t: "?items @ w0 @ CHR '']'' # ys = d # ds" and dn: "d \<noteq> CHR '']''"
    by (cases "?items @ w0 @ CHR '']'' # ys") (auto simp: value_start_def)
  have sk: "skip_ws (w1 @ ?items @ w0 @ CHR '']'' # ys) = d # ds"
    using skip_ws_value_start [OF vs] by (simp add: skip_ws_ws [OF w1] t)
  have "scan_array pf coerce_to_strict m (?items @ w0 @ CHR '']'' # ys) = Inr (map strict_tree xs, ys)"
    by (rule scan_array_chunks [OF la ne w1 w0 len2])
  then have sa: "scan_array pf coerce_to_strict m (d # ds) = Inr (map strict_tree xs, ys)"
    by (simp add: t)
  show "scan_once pf coerce_to_strict n ((''['' @ w1 @ ?items @ w0 @ '']'') @ ys)
      = Inr (strict_tree (PList xs), ys)"
    by (simp add: n sk dn sa)
qed

lemma reads_back_object:
  assumes la: "list_all2 (reads_back pf) vs chunks" and lk: "length ks = length chunks"
    and ne: "chunks \<noteq> []" and dk: "distinct ks"
    and w1: "\<forall>c \<in> set w1. is_ws c" and w0: "\<forall>c \<in> set w0. is_ws c"
    and wk: "\<forall>c \<in> set wk. is_ws c"
    and st: "strict_tree obj = PDict (zip ks (map strict_tree vs))"
  shows "reads_back pf obj
           (''{'' @ w1 @ intercalate (CHR '','' # w1) (map2 (entry (CHR '':'' # wk)) ks chunks)
              @ w0 @ ''}'')"
  unfolding reads_back_def
proof (intro conjI allI impI)
  show "value_start (''{'' @ w1 @ intercalate (CHR '','' # w1) (map2 (entry (CHR '':'' # wk)) ks chunks)
              @ w0 @ ''}'')"
    by (simp add: value_start_def is_ws_def)
next
  fix ys n
  let ?items = "intercalate (CHR '','' # w1) (map2 (entry (CHR '':'' # wk)) ks chunks)"
  assume fo: "follow_ok ys" and len: "length (''{'' @ w1 @ ?items @ w0 @ ''}'') \<le> n"
  from intercalate_entries_quote [OF lk ne] obtain body where body: "?items = CHR 0x22 # body"
    by blast
  from len body obtain m where n: "n = Suc m" and len2: "length (body @ w0 @ ''}'') \<le> m"
    by (cases n) auto
  have sk: "skip_ws (w1 @ CHR 0x22 # body @ w0 @ CHR ''}'' # ys) = CHR 0x22 # body @ w0 @ CHR ''}'' # ys"
    by (simp add: skip_ws_ws [OF w1] skip_ws_nonws is_ws_def)
  have so: "scan_object pf coerce_to_strict m (body @ w0 @ CHR ''}'' # ys)
      = Inr (zip ks (map strict_tree vs), ys)"
    by (rule scan_object_chunks [OF la lk ne w1 w0 wk body len2])
  have "length vs = length chunks" using la by (rule list_all2_lengthD)
  with lk dk have "distinct (map fst (zip ks (map strict_tree vs)))" by simp
  then have pd: "py_dict (zip ks (map strict_tree vs)) = zip ks (map strict_tree vs)"
    by (rule py_dict_distinct)
  show "scan_once pf coerce_to_strict n ((''{'' @ w1 @ ?items @ w0 @ ''}'') @ ys)
      = Inr (strict_tree obj, ys)"
    by (simp add: n body sk so pd st)
qed

lemma reads_back_tuple: "reads_back pf (PList xs) t \<Longrightarrow> reads_back pf (PTuple xs) t"
  by (simp add: reads_back_def)

lemma entry_eq: "(\<lambda>k chunk. encode_basestring_ascii k @ keysep @ chunk) = entry keysep"
  by (simp add: entry_def fun_eq_iff)

lemma iterencode_array_text:
  assumes "plain_separators opts" and "xs \<noteq> []"
    and "map_sum id
        (\<lambda>chunks. ''['' @ newline_indent opts (Suc lvl)
           @ intercalate (item_separator opts @ newline_indent opts (Suc lvl)) chunks
           @ newline_indent opts lvl @ '']'')
        (sequence (map (iterencode opts (Suc lvl)) xs)) = Inr s"
    and ih: "\<And>x c. x \<in> set xs \<Longrightarrow> iterencode opts (Suc lvl) x = Inr c \<Longrightarrow> reads_back pf x c"
  shows "reads_back pf (PList xs) s"
proof -
  let ?w1 = "newline_indent opts (Suc lvl)" and ?w0 = "newline_indent opts lvl"
  from assms(3) obtain chunks where sq: "sequence (map (iterencode opts (Suc lvl)) xs) = Inr chunks"
    and s: "s = ''['' @ ?w1 @ intercalate (item_separator opts @ ?w1) chunks @ ?w0 @ '']''"
    by (cases "sequence (map (iterencode opts (Suc lvl)) xs)") auto
  from sq have la0: "list_all2 (\<lambda>x c. iterencode opts (Suc lvl) x = Inr c) xs chunks"
    by (simp add: sequence_Inr_iff)
  then have la: "list_all2 (reads_back pf) xs chunks"
    by (rule list.rel_mono_strong) (rule ih)
  from la0 assms(2) have ne: "chunks \<noteq> []" by (auto dest: list_all2_lengthD)
  from assms(1) have sep: "item_separator opts @ ?w1 = CHR '','' # ?w1"
    by (simp add: plain_separators_def)
  show ?thesis
    unfolding s sep
    by (rule reads_back_array [OF la ne newline_indent_ws newline_indent_ws])
qed

lemma key_separator_plain:
  "plain_separators opts \<Longrightarrow> \<exists>wk. key_separator opts = CHR '':'' # wk \<and> (\<forall>c \<in> set wk. is_ws c)"
  by (auto simp: plain_separators_def is_ws_def)

lemma iterencode_object_text:
  assumes ps: "plain_separators opts" and "kvs \<noteq> []" and dk: "distinct (map fst kvs)"
    and "map_sum id
        (\<lambda>chunks. ''{'' @ newline_indent opts (Suc lvl)
           @ intercalate (item_separator opts @ newline_indent opts (Suc lvl))
               (map2 (\<lambda>k chunk. encode_basestring_ascii k @ key_separator opts @ chunk)
                  (map fst (dict_order opts kvs)) chunks)
           @ newline_indent opts lvl @ ''}'')
        (sequence (map (iterencode opts (Suc lvl)) (map snd (dict_order opts kvs)))) = Inr s"
    and ih: "\<And>x c. x \<in> snd ` set kvs \<Longrightarrow> iterencode opts (Suc lvl) x = Inr c \<Longrightarrow> reads_back pf x c"
  shows "reads_back pf (PDict kvs) s"
proof -
  let ?w1 = "newline_indent opts (Suc lvl)" and ?w0 = "newline_indent opts lvl"
  from ps have d: "dict_order opts kvs = sort_key fst kvs"
    by (simp add: dict_order_def plain_separators_def)
  let ?ks = "map fst (sort_key fst kvs)" and ?vs = "map snd (sort_key fst kvs)"
  from key_separator_plain [OF ps] obtain wk where ksep: "key_separator opts = CHR '':'' # wk"
    and wk: "\<forall>c \<in> set wk. is_ws c" by blast
  from assms(4) obtain chunks where sq: "sequence (map (iterencode opts (Suc lvl)) ?vs) = Inr chunks"
    and s: "s = ''{'' @ ?w1 @ intercalate (item_separator opts @ ?w1)
               (map2 (entry (CHR '':'' # wk)) ?ks chunks) @ ?w0 @ ''}''"
    unfolding d ksep entry_eq
    by (cases "sequence (map (iterencode opts (Suc lvl)) ?vs)") auto
  from sq have la0: "list_all2 (\<lambda>x c. iterencode opts (Suc lvl) x = Inr c) ?vs chunks"
    by (simp only: sequence_Inr_iff)
  have sub: "set ?vs \<subseteq> snd ` set kvs" by auto
  from la0 have la: "list_all2 (reads_back pf) ?vs chunks"
    by (rule list.rel_mono_strong) (use sub ih in blast)
  from la0 have len: "length ?vs = length chunks" by (rule list_all2_lengthD)
  then have lk: "length ?ks = length chunks" by simp
  from len assms(2) have ne: "chunks \<noteq> []" by auto
  from ps have sep: "item_separator opts @ ?w1 = CHR '','' # ?w1"
    by (simp add: plain_separators_def)
  have dks: "distinct ?ks" by (rule distinct_keys_sorted [OF dk])
  show ?thesis
    unfolding s sep
    by (rule reads_back_object [OF la lk ne dks newline_indent_ws newline_indent_ws wk]) simp
qed

lemma iterencode_reads_back:
  assumes ps: "plain_separators opts"
  shows "json_native pf v \<Longrightarrow> iterencode opts lvl v = Inr s \<Longrightarrow> reads_back pf v s"
proof (induction v arbitrary: lvl s)
  case PNone
  then show ?case by (auto simp: reads_back_literal)
next
  case (PBool b)
  then show ?case by (auto simp: reads_back_literal)
next
  case (PInt i)
  then show ?case by (auto simp: reads_back_int)
next
  case (PFloat x)
  then show ?case by (cases x) (auto simp: reads_back_literal reads_back_finite)
next
  case (PStr t)
  then show ?case by (auto simp: reads_back_str)
next
  case (PList xs)
  show ?case
  proof (cases "xs = []")
    case True
    with PList.prems show ?thesis by (auto simp: reads_back_empty)
  next
    case False
    have ih: "\<And>x c. x \<in> set xs \<Longrightarrow> iterencode opts (Suc lvl) x = Inr c \<Longrightarrow> reads_back pf x c"
      using PList.IH PList.prems(1) by (auto simp: list_all_iff)
    from PList.prems(2) False show ?thesis
      by (intro iterencode_array_text [OF ps False _ ih]) simp_all
  qed
next
  case (PTuple xs)
  show ?case
  proof (cases "xs = []")
    case True
    with PTuple.prems show ?thesis by (auto simp: reads_back_empty intro: reads_back_tuple)
  next
    case False
    have ih: "\<And>x c. x \<in> set xs \<Longrightarrow> iterencode opts (Suc lvl) x = Inr c \<Longrightarrow> reads_back pf x c"
      using PTuple.IH PTuple.prems(1) by (auto simp: list_all_iff)
    from PTuple.prems(2) False show ?thesis
      by (intro reads_back_tuple iterencode_array_text [OF ps False _ ih]) simp_all
  qed
next
  case (PDict kvs)
  show ?case
  proof (cases "kvs = []")
    case True
    with PDict.prems show ?thesis by (auto simp: reads_back_empty)
  next
    case False
    have ih: "\<And>x c. x \<in> snd ` set kvs \<Longrightarrow> iterencode opts (Suc lvl) x = Inr c \<Longrightarrow> reads_back pf x c"
      using PDict.IH PDict.prems(1) by (fastforce simp: list_all_iff)
    from PDict.prems(1) have dk: "distinct (map fst kvs)" by simp
    from PDict.prems(2) False show ?thesis
      by (intro iterencode_object_text [OF ps False dk _ ih]) simp_all
  qed
qed simp_all

lemma json_loads_dumps:
  assumes "plain_separators opts" and "json_native pf v" and "json_dumps opts v = Inr s"
  shows "json_loads pf coerce_to_strict s = Inr (strict_tree v)"
proof -
  from assms have rb: "reads_back pf v s"
    unfolding json_dumps_def by (intro iterencode_reads_back)
  then have vs: "value_start s" by (simp add: reads_back_def)
  from rb have "\<forall>ys n. follow_ok ys \<longrightarrow> length s \<le> n \<longrightarrow>
      scan_once pf coerce_to_strict n (s @ ys) = Inr (strict_tree v, ys)"
    by (simp add: reads_back_def del: scan_once.simps)
  then have "follow_ok [] \<longrightarrow> length s \<le> Suc (length s) \<longrightarrow>
      scan_once pf coerce_to_strict (Suc (length s)) (s @ []) = Inr (strict_tree v, [])"
    by blast
  then have "scan_once pf coerce_to_strict (Suc (length s)) s = Inr (strict_tree v, [])"
    by (simp del: scan_once.simps)
  moreover have "skip_ws [] = []" by (simp add: skip_ws_def)
  ultimately show ?thesis
    by (simp add: json_loads_def skip_ws_value_start [OF vs] del: scan_once.simps)
qed

end
